theory Spec2Isabelle
  imports Complex_Main
begin

section \<open>Errors\<close>

text \<open>
  The Python exceptions that \<^verbatim>\<open>mps.py\<close> and the numpy routines it calls can raise.
  A computation that may raise returns \<open>py_error + 'a\<close>, with \<open>Inl\<close> for the exception.
\<close>

datatype py_error =
  IndexError | AttributeError | ValueError | AxisError | NotImplementedError | LinAlgError

definition bindE :: "py_error + 'a \<Rightarrow> ('a \<Rightarrow> py_error + 'b) \<Rightarrow> py_error + 'b" where
  "bindE m f = (case m of Inl e \<Rightarrow> Inl e | Inr x \<Rightarrow> f x)"

section \<open>numpy arrays\<close>

text \<open>
  An array is its shape and its entries in row-major (C) order, as numpy stores the result
  of \<^verbatim>\<open>reshape\<close>. Entries are exact complex numbers.
\<close>

record ndarray =
  shape :: "nat list"
  data :: "complex list"

definition size_nd :: "ndarray \<Rightarrow> nat" where
  "size_nd a = prod_list (shape a)"

definition wf_nd :: "ndarray \<Rightarrow> bool" where
  "wf_nd a = (length (data a) = prod_list (shape a))"

definition sumN :: "nat \<Rightarrow> (nat \<Rightarrow> complex) \<Rightarrow> complex" where
  "sumN n f = sum_list (map f [0..<n])"

text \<open>Flat position of a multi-index (Horner's rule over the axes), and its inverse.\<close>

definition ravel :: "nat list \<Rightarrow> nat list \<Rightarrow> nat" where
  "ravel shp idx = foldl (\<lambda>acc (n, i). acc * n + i) 0 (zip shp idx)"

fun unravel_rev :: "nat list \<Rightarrow> nat \<Rightarrow> nat list" where
  "unravel_rev [] k = []"
| "unravel_rev (n # ns) k = (k mod n) # unravel_rev ns (k div n)"

definition unravel :: "nat list \<Rightarrow> nat \<Rightarrow> nat list" where
  "unravel shp k = rev (unravel_rev (rev shp) k)"

definition elem :: "ndarray \<Rightarrow> nat list \<Rightarrow> complex" where
  "elem a idx = data a ! ravel (shape a) idx"

definition drop_nth :: "nat \<Rightarrow> 'a list \<Rightarrow> 'a list" where
  "drop_nth i xs = take i xs @ drop (Suc i) xs"

definition insert_nth :: "nat \<Rightarrow> 'a \<Rightarrow> 'a list \<Rightarrow> 'a list" where
  "insert_nth i x xs = take i xs @ x # drop i xs"

definition swap_list :: "nat \<Rightarrow> nat \<Rightarrow> 'a list \<Rightarrow> 'a list" where
  "swap_list i j xs = xs[i := xs ! j, j := xs ! i]"

text \<open>\<^verbatim>\<open>a.conj()\<close>\<close>

definition conj_nd :: "ndarray \<Rightarrow> ndarray" where
  "conj_nd a = \<lparr>shape = shape a, data = map cnj (data a)\<rparr>"

text \<open>
  \<^verbatim>\<open>np.tensordot(a, b, axes=([i],[j]))\<close>: sum over axis \<open>i\<close> of \<open>a\<close> and axis \<open>j\<close> of \<open>b\<close>;
  the remaining axes of \<open>a\<close>, then those of \<open>b\<close>, in their order. An axis that does not
  exist is an IndexError, axes of different length a ValueError.
\<close>

definition tensordot :: "ndarray \<Rightarrow> ndarray \<Rightarrow> nat \<Rightarrow> nat \<Rightarrow> py_error + ndarray" where
  "tensordot a b i j =
     (if length (shape a) \<le> i \<or> length (shape b) \<le> j then Inl IndexError
      else if shape a ! i \<noteq> shape b ! j then Inl ValueError
      else
        let sa = drop_nth i (shape a);
            sb = drop_nth j (shape b);
            shp = sa @ sb;
            n = shape a ! i
        in Inr \<lparr>shape = shp,
                data = map (\<lambda>k. let idx = unravel shp k;
                                     ia = take (length sa) idx;
                                     ib = drop (length sa) idx
                                 in sumN n (\<lambda>p. elem a (insert_nth i p ia) * elem b (insert_nth j p ib)))
                           [0..<prod_list shp]\<rparr>)"

text \<open>\<^verbatim>\<open>np.swapaxes(a, i, j)\<close>\<close>

definition swapaxes :: "ndarray \<Rightarrow> nat \<Rightarrow> nat \<Rightarrow> py_error + ndarray" where
  "swapaxes a i j =
     (if length (shape a) \<le> i \<or> length (shape a) \<le> j then Inl AxisError
      else
        let shp = swap_list i j (shape a)
        in Inr \<lparr>shape = shp,
                data = map (\<lambda>k. elem a (swap_list i j (unravel shp k))) [0..<prod_list shp]\<rparr>)"

text \<open>\<^verbatim>\<open>a.reshape(shp)\<close>: the same entries in the same order; the sizes must agree.\<close>

definition reshape :: "ndarray \<Rightarrow> nat list \<Rightarrow> py_error + ndarray" where
  "reshape a shp =
     (if prod_list shp \<noteq> size_nd a then Inl ValueError
      else Inr \<lparr>shape = shp, data = data a\<rparr>)"

text \<open>\<^verbatim>\<open>np.eye(n, n)\<close>\<close>

definition eye :: "nat \<Rightarrow> ndarray" where
  "eye n = \<lparr>shape = [n, n],
            data = map (\<lambda>k. if k div n = k mod n then 1 else 0) [0..<n * n]\<rparr>"

text \<open>
  \<^verbatim>\<open>a @ b\<close> for the operands this program has: matrices and vectors. The product of two
  vectors is a scalar, an array of shape \<open>[]\<close>. Inner dimensions that differ are a
  ValueError. (Operands of rank 0, or above 2, do not occur: every operand is the result
  of a reshape to rank 2, of \<^verbatim>\<open>np.eye\<close>, of \<^verbatim>\<open>np.kron\<close> of vectors, or of such a product.)
\<close>

fun matmul_shapes :: "nat list \<Rightarrow> nat list \<Rightarrow> ndarray \<Rightarrow> ndarray \<Rightarrow> py_error + ndarray" where
  "matmul_shapes [n, k] [k', m] a b =
     (if k \<noteq> k' then Inl ValueError
      else Inr \<lparr>shape = [n, m],
                data = map (\<lambda>q. sumN k (\<lambda>l. elem a [q div m, l] * elem b [l, q mod m]))
                           [0..<n * m]\<rparr>)"
| "matmul_shapes [n, k] [k'] a b =
     (if k \<noteq> k' then Inl ValueError
      else Inr \<lparr>shape = [n],
                data = map (\<lambda>q. sumN k (\<lambda>l. elem a [q, l] * elem b [l])) [0..<n]\<rparr>)"
| "matmul_shapes [k] [k', m] a b =
     (if k \<noteq> k' then Inl ValueError
      else Inr \<lparr>shape = [m],
                data = map (\<lambda>q. sumN k (\<lambda>l. elem a [l] * elem b [l, q])) [0..<m]\<rparr>)"
| "matmul_shapes [k] [k'] a b =
     (if k \<noteq> k' then Inl ValueError
      else Inr \<lparr>shape = [], data = [sumN k (\<lambda>l. elem a [l] * elem b [l])]\<rparr>)"
| "matmul_shapes _ _ a b = Inl ValueError"

definition matmul :: "ndarray \<Rightarrow> ndarray \<Rightarrow> py_error + ndarray" where
  "matmul a b = matmul_shapes (shape a) (shape b) a b"

text \<open>\<^verbatim>\<open>np.dot\<close> of two vectors is their product as above (no conjugation).\<close>

definition dot :: "ndarray \<Rightarrow> ndarray \<Rightarrow> py_error + ndarray" where
  "dot a b = matmul a b"

text \<open>A one-dimensional array, and the value of a scalar result.\<close>

definition vec :: "complex list \<Rightarrow> ndarray" where
  "vec v = \<lparr>shape = [length v], data = v\<rparr>"

definition item :: "ndarray \<Rightarrow> complex" where
  "item a = elem a []"

text \<open>\<^verbatim>\<open>np.kron\<close> of two vectors.\<close>

definition kron :: "complex list \<Rightarrow> complex list \<Rightarrow> complex list" where
  "kron u v = map (\<lambda>(x, y). x * y) (List.product u v)"

text \<open>\<^verbatim>\<open>np.kron(x, v)\<close> where \<open>x\<close> is a Python number or a vector.\<close>

datatype bdry_item = Num complex | Arr "complex list"

definition kron_item :: "bdry_item \<Rightarrow> complex list \<Rightarrow> complex list" where
  "kron_item x v = (case x of Num c \<Rightarrow> map (\<lambda>y. c * y) v | Arr u \<Rightarrow> kron u v)"

text \<open>
  Basic indexing \<^verbatim>\<open>a[i0, i1, ...]\<close> with integers and full slices \<^verbatim>\<open>:\<close>: the shape of the
  result, and its \<^verbatim>\<open>.size\<close>. An integer out of range, or more indices than axes, is an
  IndexError.
\<close>

datatype ix = All | Ix nat

fun sliced_shape :: "ix list \<Rightarrow> nat list \<Rightarrow> py_error + nat list" where
  "sliced_shape [] shp = Inr shp"
| "sliced_shape (x # xs) [] = Inl IndexError"
| "sliced_shape (All # xs) (n # shp) = bindE (sliced_shape xs shp) (\<lambda>r. Inr (n # r))"
| "sliced_shape (Ix i # xs) (n # shp) = (if i < n then sliced_shape xs shp else Inl IndexError)"

definition index_size :: "ndarray \<Rightarrow> ix list \<Rightarrow> py_error + nat" where
  "index_size a ixs = bindE (sliced_shape ixs (shape a)) (\<lambda>shp. Inr (prod_list shp))"

text \<open>\<^verbatim>\<open>xs[j]\<close> on a Python list, for \<open>j \<ge> 0\<close>.\<close>

definition get_nth :: "'a list \<Rightarrow> nat \<Rightarrow> py_error + 'a" where
  "get_nth xs j = (if j < length xs then Inr (xs ! j) else Inl IndexError)"

subsection \<open>Determinant, inverse and matrix power\<close>

text \<open>
  \<^verbatim>\<open>np.linalg.inv\<close> in exact arithmetic: the adjugate over the determinant (Laplace
  expansion along the first row), LinAlgError for a singular or non-square matrix.
\<close>

definition rows_of :: "ndarray \<Rightarrow> complex list list" where
  "rows_of a =
     (case shape a of
        [n, m] \<Rightarrow> map (\<lambda>i. map (\<lambda>j. elem a [i, j]) [0..<m]) [0..<n]
      | _ \<Rightarrow> [])"

function det :: "complex list list \<Rightarrow> complex" where
  "det [] = 1"
| "det (r # rows) =
     sum_list (map (\<lambda>j. (- 1) ^ j * r ! j * det (map (drop_nth j) rows)) [0..<length r])"
  by pat_completeness auto
termination
  by (relation "measure length") auto

definition linalg_inv :: "ndarray \<Rightarrow> py_error + ndarray" where
  "linalg_inv a =
     (case shape a of
        [n, m] \<Rightarrow>
          if n \<noteq> m then Inl LinAlgError
          else
            let rs = rows_of a; dt = det rs
            in if dt = 0 then Inl LinAlgError
               else Inr \<lparr>shape = [n, n],
                         data = map (\<lambda>q. (- 1) ^ (q div n + q mod n)
                                           * det (map (drop_nth (q div n)) (drop_nth (q mod n) rs))
                                           / dt)
                                    [0..<n * n]\<rparr>
      | _ \<Rightarrow> Inl LinAlgError)"

text \<open>
  \<^verbatim>\<open>np.linalg.matrix_power(M, n)\<close>: the identity for \<open>n = 0\<close>, the \<open>n\<close>-fold product for
  \<open>n > 0\<close>, and for \<open>n < 0\<close> the \<open>|n|\<close>-fold product of the inverse. A matrix that is not
  square is a LinAlgError.
\<close>

fun mat_pow :: "ndarray \<Rightarrow> nat \<Rightarrow> nat \<Rightarrow> py_error + ndarray" where
  "mat_pow M N 0 = Inr (eye N)"
| "mat_pow M N (Suc k) = bindE (mat_pow M N k) (\<lambda>P. matmul M P)"

definition matrix_power :: "ndarray \<Rightarrow> int \<Rightarrow> py_error + ndarray" where
  "matrix_power M n =
     (case shape M of
        [r, c] \<Rightarrow>
          if r \<noteq> c then Inl LinAlgError
          else if 0 \<le> n then mat_pow M r (nat n)
          else bindE (linalg_inv M) (\<lambda>Mi. mat_pow Mi r (nat (- n)))
      | _ \<Rightarrow> Inl LinAlgError)"

section \<open>The state entity: class MPS\<close>

text \<open>The chain length \<^verbatim>\<open>L\<close> is a Python integer, or \<^verbatim>\<open>np.inf\<close> for the infinite chain.\<close>

datatype chain_length = Finite int | Infinite

text \<open>
  The fields of an \<^verbatim>\<open>MPS\<close> object. \<^verbatim>\<open>bdry_vecs\<close> is the two-element list
  \<^verbatim>\<open>[left, right]\<close>; \<open>None\<close> on the right means the right boundary is summed over.
\<close>

record MPS =
  mps_l_uc :: nat
  mps_L :: chain_length
  mps_tensors :: "ndarray list"
  mps_d :: nat
  mps_chi :: nat
  mps_bdry_vecs :: "complex list option \<times> complex list option"

text \<open>
  \<^verbatim>\<open>np.array(b == None).all()\<close>: true for \<open>None\<close>; for an array the comparison is
  elementwise and false at every entry, so the test is true only for the empty array.
\<close>

definition is_None :: "complex list option \<Rightarrow> bool" where
  "is_None b = (case b of None \<Rightarrow> True | Some v \<Rightarrow> v = [])"

text \<open>
  \<^verbatim>\<open>MPS.__init__(tensors, L, bdry_vecs)\<close>. (The parameter \<^verbatim>\<open>rcf\<close> is never read.)
  With the left boundary unspecified, the constructor stores a zero vector in
  \<^verbatim>\<open>self.bdry_vecs\<close> and then assigns to \<^verbatim>\<open>self.bdry_vec[0][0]\<close>, an attribute that does
  not exist: AttributeError.
\<close>

definition MPS_init ::
  "ndarray list \<Rightarrow> chain_length \<Rightarrow> complex list option \<times> complex list option \<Rightarrow> py_error + MPS" where
  "MPS_init tensors L bdry_vecs =
     (case tensors of
        [] \<Rightarrow> Inl IndexError
      | t0 # _ \<Rightarrow>
          bindE (index_size t0 [All, Ix 0, Ix 0]) (\<lambda>d.
          bindE (index_size t0 [Ix 0, All, Ix 0]) (\<lambda>chi.
          bindE (case fst bdry_vecs of
                   None \<Rightarrow> Inl AttributeError
                 | Some l \<Rightarrow>
                     if is_None (Some l) then Inl AttributeError
                     else if length l \<noteq> chi then Inl ValueError
                     else Inr (Some l)) (\<lambda>left.
          bindE (case snd bdry_vecs of
                   None \<Rightarrow> Inr None
                 | Some r \<Rightarrow>
                     if is_None (Some r) then Inr None
                     else if length r \<noteq> chi then Inl ValueError
                     else Inr (Some r)) (\<lambda>right.
          Inr \<lparr>mps_l_uc = length tensors, mps_L = L, mps_tensors = tensors,
                mps_d = d, mps_chi = chi, mps_bdry_vecs = (left, right)\<rparr>)))))"

section \<open>The operator entity: class MPO\<close>

text \<open>
  The fields of an \<^verbatim>\<open>MPO\<close> object. \<^verbatim>\<open>bdry_vecs\<close> is a Python list; the constructor
  stores the boundary vectors given as its items. (An item that is a number is a scalar
  to \<^verbatim>\<open>np.kron\<close> and has no axis for \<^verbatim>\<open>np.tensordot\<close>.)
\<close>

record MPO =
  mpo_l_uc :: nat
  mpo_L :: chain_length
  mpo_tensors :: "ndarray list"
  mpo_d :: nat
  mpo_chi :: nat
  mpo_bdry_vecs :: "bdry_item list"

text \<open>
  One pass of the loop \<^verbatim>\<open>for j in range(2)\<close> of \<^verbatim>\<open>MPO.__init__\<close>; \<open>acc\<close> is the list
  \<^verbatim>\<open>self.bdry_vecs\<close> so far: empty for \<open>j = 0\<close>, the left vector (of length \<open>chi\<close>) for
  \<open>j = 1\<close>. In the default branch, \<^verbatim>\<open>self.bdry_vecs += np.zeros(self.chi)\<close> has a list on
  the left and an array on the right: Python evaluates it as numpy's elementwise sum of
  the list, read as an array, and the zero vector, not as list extension. The empty list
  is an array of shape \<open>(0)\<close>, which broadcasts against shape \<open>(chi)\<close> only for
  \<open>chi \<le> 1\<close> (ValueError otherwise), and then the sum is empty; a list of \<open>k\<close> vectors
  of length \<open>chi\<close> gives an array of shape \<open>(k, chi)\<close>. The assignment
  \<^verbatim>\<open>self.bdry_vecs[j] = 1\<close> then sets row \<open>j\<close> of that array, an IndexError when
  there is no such row. In the loop as it runs the default branch always raises.
\<close>

definition mpo_bdry_step ::
  "nat \<Rightarrow> nat \<Rightarrow> complex list option \<Rightarrow> bdry_item list \<Rightarrow> py_error + bdry_item list" where
  "mpo_bdry_step chi j b acc =
     (if is_None b then
        (if acc = [] then (if chi \<le> 1 then Inl IndexError else Inl ValueError)
         else if j < length acc then Inr (acc[j := Arr (replicate chi 1)])
         else Inl IndexError)
      else (case b of
              None \<Rightarrow> Inl AttributeError
            | Some v \<Rightarrow> if length v \<noteq> chi then Inl ValueError else Inr (acc @ [Arr v])))"

text \<open>
  \<^verbatim>\<open>MPO.__init__(tensors, L, bdry_vecs)\<close>. The tensor axes are (physical-out, bond-out,
  physical-in, bond-in); \<^verbatim>\<open>self.chi\<close> is read as \<^verbatim>\<open>tensors[0][0,0,:,0].size\<close>, the length
  of axis 2.
\<close>

definition MPO_init ::
  "ndarray list \<Rightarrow> chain_length \<Rightarrow> complex list option \<times> complex list option \<Rightarrow> py_error + MPO" where
  "MPO_init tensors L bdry_vecs =
     (case tensors of
        [] \<Rightarrow> Inl IndexError
      | t0 # _ \<Rightarrow>
          bindE (index_size t0 [All, Ix 0, Ix 0, Ix 0]) (\<lambda>d.
          bindE (index_size t0 [Ix 0, Ix 0, All, Ix 0]) (\<lambda>chi.
          bindE (mpo_bdry_step chi 0 (fst bdry_vecs) []) (\<lambda>bv0.
          bindE (mpo_bdry_step chi 1 (snd bdry_vecs) bv0) (\<lambda>bv.
          Inr \<lparr>mpo_l_uc = length tensors, mpo_L = L, mpo_tensors = tensors,
                mpo_d = d, mpo_chi = chi, mpo_bdry_vecs = bv\<rparr>)))))"

section \<open>MPS.transfer_matrix\<close>

text \<open>
  The body of the loop over the sites, without the accumulation. No operator:
  \<^verbatim>\<open>np.swapaxes(np.tensordot(A.conj(), A, axes=([0],[0])), 1, 2).reshape(chi**2, chi**2)\<close>.
\<close>

definition t_mat_site_none :: "MPS \<Rightarrow> nat \<Rightarrow> py_error + ndarray" where
  "t_mat_site_none s j =
     bindE (get_nth (mps_tensors s) j) (\<lambda>A.
     bindE (tensordot (conj_nd A) A 0 0) (\<lambda>t_tensor.
     bindE (swapaxes t_tensor 1 2) (\<lambda>sw.
     reshape sw [(mps_chi s)\<^sup>2, (mps_chi s)\<^sup>2])))"

text \<open>With an operator: the operator's site tensor on the ket, then the bra.\<close>

definition t_mat_site_mpo :: "MPS \<Rightarrow> MPO \<Rightarrow> nat \<Rightarrow> py_error + ndarray" where
  "t_mat_site_mpo s mpo j =
     (let chi_1 = mpo_chi mpo * mps_chi s;
          chi_t = chi_1 * mps_chi s
      in bindE (get_nth (mpo_tensors mpo) j) (\<lambda>W.
         bindE (get_nth (mps_tensors s) j) (\<lambda>A.
         bindE (tensordot W A 2 0) (\<lambda>mpo_on_ket.
         bindE (swapaxes mpo_on_ket 2 3) (\<lambda>sw.
         bindE (reshape sw [mps_d s, chi_1, chi_1]) (\<lambda>mpo_on_ket_reshape.
         bindE (tensordot (conj_nd A) mpo_on_ket_reshape 0 0) (\<lambda>t.
         bindE (swapaxes t 1 2) (\<lambda>sw'.
         reshape sw' [chi_t, chi_t]))))))))"

text \<open>The loop \<^verbatim>\<open>for j in range(self.l_uc)\<close>: \<^verbatim>\<open>t_mat = t_mat_site @ t_mat\<close>.\<close>

fun tm_loop :: "(nat \<Rightarrow> py_error + ndarray) \<Rightarrow> nat list \<Rightarrow> ndarray \<Rightarrow> py_error + ndarray" where
  "tm_loop site [] t_mat = Inr t_mat"
| "tm_loop site (j # js) t_mat =
     bindE (site j) (\<lambda>t_mat_site.
     bindE (matmul t_mat_site t_mat) (\<lambda>t_mat'.
     tm_loop site js t_mat'))"

definition transfer_matrix :: "MPS \<Rightarrow> MPO option \<Rightarrow> py_error + ndarray" where
  "transfer_matrix s mpo =
     (case mpo of
        None \<Rightarrow> tm_loop (t_mat_site_none s) [0..<mps_l_uc s] (eye ((mps_chi s)\<^sup>2))
      | Some m \<Rightarrow>
          tm_loop (t_mat_site_mpo s m) [0..<mps_l_uc s] (eye ((mps_chi s)\<^sup>2 * mpo_chi m)))"

section \<open>MPS.expect\<close>

text \<open>No operator inserted; \<open>t_mat\<close> is the power of the transfer matrix.\<close>

definition expect_none :: "MPS \<Rightarrow> ndarray \<Rightarrow> py_error + complex" where
  "expect_none s t_mat =
     (case fst (mps_bdry_vecs s) of
        None \<Rightarrow> Inl AttributeError
      | Some l \<Rightarrow>
          let bvec_l = vec (kron (map cnj l) l)
          in if is_None (snd (mps_bdry_vecs s)) then
               bindE (matmul t_mat bvec_l) (\<lambda>x.
               bindE (reshape x [(mps_chi s)\<^sup>2]) (\<lambda>t_mat_on_rvec.
               bindE (reshape (eye (mps_chi s)) [(mps_chi s)\<^sup>2]) (\<lambda>rvec.
               bindE (dot rvec t_mat_on_rvec) (\<lambda>expect_val.
               Inr (item expect_val)))))
             else
               (case snd (mps_bdry_vecs s) of
                  None \<Rightarrow> Inl AttributeError
                | Some r \<Rightarrow>
                    let bvec_r = vec (kron (map cnj r) r)
                    in bindE (matmul (conj_nd bvec_r) t_mat) (\<lambda>x.
                       bindE (matmul x bvec_l) (\<lambda>expect_val.
                       Inr (item expect_val)))))"

text \<open>An operator inserted.\<close>

definition expect_mpo :: "MPS \<Rightarrow> MPO \<Rightarrow> ndarray \<Rightarrow> py_error + complex" where
  "expect_mpo s mpo t_mat =
     (case fst (mps_bdry_vecs s) of
        None \<Rightarrow> Inl AttributeError
      | Some l \<Rightarrow>
          bindE (get_nth (mpo_bdry_vecs mpo) 0) (\<lambda>ml.
          let bvec_l = vec (kron (map cnj l) (kron_item ml l))
          in if is_None (snd (mps_bdry_vecs s)) then
               bindE (matmul t_mat bvec_l) (\<lambda>x.
               bindE (reshape x [mps_chi s, mpo_chi mpo, mps_chi s]) (\<lambda>t_vleft.
               bindE (get_nth (mpo_bdry_vecs mpo) 1) (\<lambda>mr.
               bindE (case mr of
                        Num c \<Rightarrow> Inl IndexError
                      | Arr u \<Rightarrow> tensordot (vec u) t_vleft 0 1) (\<lambda>y.
               bindE (reshape y [(mps_chi s)\<^sup>2]) (\<lambda>mpo_rvec_contracted.
               bindE (reshape (eye (mps_chi s)) [(mps_chi s)\<^sup>2]) (\<lambda>rvec.
               bindE (dot rvec mpo_rvec_contracted) (\<lambda>expect_val.
               Inr (item expect_val))))))))
             else
               (case snd (mps_bdry_vecs s) of
                  None \<Rightarrow> Inl AttributeError
                | Some r \<Rightarrow>
                    bindE (get_nth (mpo_bdry_vecs mpo) 1) (\<lambda>mr.
                    let bvec_r = vec (kron (map cnj r) (kron_item mr r))
                    in bindE (matmul (conj_nd bvec_r) t_mat) (\<lambda>x.
                       bindE (matmul x bvec_l) (\<lambda>expect_val.
                       Inr (item expect_val)))))))"

text \<open>
  \<^verbatim>\<open>MPS.expect(mpo)\<close>. A finite chain takes the \<open>L\<close>-th matrix power of the unit-cell
  transfer matrix; the branch for the infinite chain raises NotImplementedError.
\<close>

definition expect :: "MPS \<Rightarrow> MPO option \<Rightarrow> py_error + complex" where
  "expect s mpo =
     (case mps_L s of
        Infinite \<Rightarrow> Inl NotImplementedError
      | Finite L \<Rightarrow>
          bindE (transfer_matrix s mpo) (\<lambda>T.
          bindE (matrix_power T L) (\<lambda>t_mat.
          case mpo of
            None \<Rightarrow> expect_none s t_mat
          | Some m \<Rightarrow> expect_mpo s m t_mat)))"

section \<open>Canonical form\<close>

text \<open>\<^verbatim>\<open>MPS.check_rcf\<close> and \<^verbatim>\<open>MPS.convert_rcf\<close> raise NotImplementedError.\<close>

definition check_rcf :: "MPS \<Rightarrow> py_error + bool" where
  "check_rcf s = Inl NotImplementedError"

definition convert_rcf :: "MPS \<Rightarrow> py_error + MPS" where
  "convert_rcf s = Inl NotImplementedError"

section \<open>Matrices and vectors given by their entries\<close>

text \<open>
  The \<open>N \<times> N\<close> array with entry \<open>f i j\<close> in row \<open>i\<close> and column \<open>j\<close>, and the vector with
  entry \<open>v i\<close>, both in numpy's row-major layout; the matrix product, the product of a
  matrix and a vector, the identity and the powers, on entries.
\<close>

definition mat_of :: "nat \<Rightarrow> (nat \<Rightarrow> nat \<Rightarrow> complex) \<Rightarrow> ndarray" where
  "mat_of N f = \<lparr>shape = [N, N], data = map (\<lambda>k. f (k div N) (k mod N)) [0..<N * N]\<rparr>"

definition vec_of :: "nat \<Rightarrow> (nat \<Rightarrow> complex) \<Rightarrow> ndarray" where
  "vec_of N v = \<lparr>shape = [N], data = map v [0..<N]\<rparr>"

definition mm ::
  "nat \<Rightarrow> (nat \<Rightarrow> nat \<Rightarrow> complex) \<Rightarrow> (nat \<Rightarrow> nat \<Rightarrow> complex) \<Rightarrow> nat \<Rightarrow> nat \<Rightarrow> complex" where
  "mm N f g = (\<lambda>i j. \<Sum>k<N. f i k * g k j)"

definition mv :: "nat \<Rightarrow> (nat \<Rightarrow> nat \<Rightarrow> complex) \<Rightarrow> (nat \<Rightarrow> complex) \<Rightarrow> nat \<Rightarrow> complex" where
  "mv N f v = (\<lambda>i. \<Sum>k<N. f i k * v k)"

definition idm :: "nat \<Rightarrow> nat \<Rightarrow> complex" where
  "idm = (\<lambda>i j. if i = j then 1 else 0)"

fun pw :: "nat \<Rightarrow> (nat \<Rightarrow> nat \<Rightarrow> complex) \<Rightarrow> nat \<Rightarrow> (nat \<Rightarrow> nat \<Rightarrow> complex)" where
  "pw N F 0 = idm"
| "pw N F (Suc k) = mm N F (pw N F k)"

section \<open>The transfer matrix as the specification describes it\<close>

text \<open>
  A site tensor of a state with bond dimension \<open>n\<close> is an array of shape \<open>(d, n, n)\<close>, axes
  (physical, bond-out, bond-in), with as many entries as its shape says.
\<close>

definition valid_site :: "nat \<Rightarrow> ndarray \<Rightarrow> bool" where
  "valid_site n A = (wf_nd A \<and> shape A = [hd (shape A), n, n])"

text \<open>
  The conjugate tensor's physical index contracted with the tensor's physical index: the
  rank-4 object indexed by (bra-bond-out \<open>a\<close>, bra-bond-in \<open>b\<close>, ket-bond-out \<open>c\<close>,
  ket-bond-in \<open>e\<close>).
\<close>

definition contract_physical :: "ndarray \<Rightarrow> nat \<Rightarrow> nat \<Rightarrow> nat \<Rightarrow> nat \<Rightarrow> complex" where
  "contract_physical A a b c e =
     sumN (hd (shape A)) (\<lambda>p. cnj (elem A [p, a, b]) * elem A [p, c, e])"

text \<open>
  The per-site matrix: the pair (bra-bond-out, ket-bond-out) is the row index
  \<open>i = a * n + c\<close>, the pair (bra-bond-in, ket-bond-in) the column index \<open>j = b * n + e\<close>.
\<close>

definition site_matrix :: "ndarray \<Rightarrow> nat \<Rightarrow> nat \<Rightarrow> nat \<Rightarrow> complex" where
  "site_matrix A n i j = contract_physical A (i div n) (j div n) (i mod n) (j mod n)"

text \<open>
  The product over the unit cell, \<open>T = T\<^sub>l\<^sub>-\<^sub>1 \<cdots> T\<^sub>1 T\<^sub>0\<close>: the matrix of site 0 is the
  rightmost factor. (The empty product is the identity.)
\<close>

fun unit_cell_product :: "nat \<Rightarrow> ndarray list \<Rightarrow> (nat \<Rightarrow> nat \<Rightarrow> complex)" where
  "unit_cell_product n [] = idm"
| "unit_cell_product n [A] = site_matrix A n"
| "unit_cell_product n (A # As) = mm (n * n) (unit_cell_product n As) (site_matrix A n)"

text \<open>
  Right-canonical form of a site tensor: contracted with its conjugate over the physical
  and the bond-out index, it gives the identity matrix on the bond-in index.
\<close>

definition right_canonical :: "ndarray \<Rightarrow> bool" where
  "right_canonical A =
     (case shape A of
        [d, n, m] \<Rightarrow>
          list_all (\<lambda>b. list_all (\<lambda>e.
              sumN d (\<lambda>p. sumN n (\<lambda>a. cnj (elem A [p, a, b]) * elem A [p, a, e]))
                = (if b = e then 1 else 0)) [0..<m]) [0..<m]
      | _ \<Rightarrow> False)"

text \<open>
  A matrix on the doubled bond space preserves the trace when the flattened identity is a
  left fixed vector: summing its rows \<open>(a, a)\<close> gives the flattened identity.
\<close>

definition trace_preserving :: "nat \<Rightarrow> (nat \<Rightarrow> nat \<Rightarrow> complex) \<Rightarrow> bool" where
  "trace_preserving n F =
     (\<forall>j<n * n. (\<Sum>a<n. F (a * n + a) j) = (if j div n = j mod n then 1 else 0))"

text \<open>
  A vector on the doubled bond space is a Gram vector when it is a finite sum of terms
  \<open>conj x \<otimes> x\<close>: entry \<open>(a, c)\<close> is the sum of \<open>cnj (x a) * x c\<close> over a list of vectors
  \<open>x\<close>.
\<close>

definition gram :: "nat \<Rightarrow> (nat \<Rightarrow> complex) \<Rightarrow> bool" where
  "gram n v =
     (\<exists>xs :: (nat \<Rightarrow> complex) list.
        \<forall>a<n. \<forall>c<n. v (a * n + c) = (\<Sum>x\<leftarrow>xs. cnj (x a) * x c))"

section \<open>The boundary contraction as the specification describes it\<close>

text \<open>
  The contraction vector of a boundary: the Kronecker product of the conjugated boundary
  vector (bra), the operator's boundary vector if an operator is present, and the boundary
  vector (ket).
\<close>

definition contraction_vector :: "complex list option \<Rightarrow> complex list \<Rightarrow> complex list" where
  "contraction_vector op b =
     (case op of None \<Rightarrow> kron (map cnj b) b | Some u \<Rightarrow> kron (map cnj b) (kron u b))"

text \<open>The scalar \<open>w\<^sup>\<dagger> P v\<close>, for a matrix \<open>P\<close> given by its entries.\<close>

definition sandwich :: "complex list \<Rightarrow> (nat \<Rightarrow> nat \<Rightarrow> complex) \<Rightarrow> complex list \<Rightarrow> complex" where
  "sandwich w P v = (\<Sum>i<length w. cnj (w ! i) * (\<Sum>j<length v. P i j * v ! j))"

text \<open>
  Boundary vector \<open>j\<close> of the operator, if an operator is present and item \<open>j\<close> of its
  list is a vector; and the operators whose two boundary items are vectors of length
  \<^verbatim>\<open>mpo.chi\<close>, as \<^verbatim>\<open>MPO.__init__\<close> stores them when both are given.
\<close>

definition op_boundary :: "MPO option \<Rightarrow> nat \<Rightarrow> complex list option" where
  "op_boundary mpo j =
     (case mpo of
        None \<Rightarrow> None
      | Some m \<Rightarrow> (case get_nth (mpo_bdry_vecs m) j of Inr (Arr u) \<Rightarrow> Some u | _ \<Rightarrow> None))"

definition fixed_op_boundaries :: "MPO option \<Rightarrow> bool" where
  "fixed_op_boundaries mpo =
     (case mpo of
        None \<Rightarrow> True
      | Some m \<Rightarrow>
          (case op_boundary mpo 0 of Some ml \<Rightarrow> length ml = mpo_chi m | None \<Rightarrow> False) \<and>
          (case op_boundary mpo 1 of Some mr \<Rightarrow> length mr = mpo_chi m | None \<Rightarrow> False))"

text \<open>The size of the unit-cell transfer matrix.\<close>

definition tm_dim :: "MPS \<Rightarrow> MPO option \<Rightarrow> nat" where
  "tm_dim s mpo = (case mpo of None \<Rightarrow> (mps_chi s)\<^sup>2 | Some m \<Rightarrow> (mps_chi s)\<^sup>2 * mpo_chi m)"

text \<open>
  The contraction of a matrix \<open>P\<close> on the doubled bond space with the boundaries, without
  an operator: with the right boundary traced out, the trace of \<open>P\<close> applied to the left
  contraction vector; with a fixed right boundary, the sandwich of \<open>P\<close> between the two
  contraction vectors.
\<close>

definition boundary_contraction ::
  "nat \<Rightarrow> complex list option \<Rightarrow> (nat \<Rightarrow> nat \<Rightarrow> complex) \<Rightarrow> complex list \<Rightarrow> complex" where
  "boundary_contraction n rb P l =
     (case rb of
        None \<Rightarrow> (\<Sum>a<n. mv (n * n) P (\<lambda>k. contraction_vector None l ! k) (a * n + a))
      | Some r \<Rightarrow> sandwich (contraction_vector None r) P (contraction_vector None l))"

section \<open>Example entities\<close>

text \<open>
  The site tensor \<^verbatim>\<open>u_swap[:,:,0,:]\<close> of the test script at the end of \<^verbatim>\<open>mps.py\<close>
  (\<open>d = 2\<close>, \<open>chi = 2\<close>), a tensor with \<open>chi = 4\<close>, and the state built from the first.
\<close>

definition swap_tensor :: ndarray where
  "swap_tensor = \<lparr>shape = [2, 2, 2], data = [1, 0, 0, 0, 0, 1, 0, 0]\<rparr>"

definition zero_tensor_chi4 :: ndarray where
  "zero_tensor_chi4 = \<lparr>shape = [2, 4, 4], data = replicate 32 0\<rparr>"

definition swap_state :: "chain_length \<Rightarrow> MPS" where
  "swap_state L =
     \<lparr>mps_l_uc = 1, mps_L = L, mps_tensors = [swap_tensor], mps_d = 2, mps_chi = 2,
      mps_bdry_vecs = (Some [1, 0], None)\<rparr>"

text \<open>
  The identity operator on one site with bond dimension 1: shape \<open>(2, 1, 2, 1)\<close>, and the
  operator entity that \<^verbatim>\<open>MPO.__init__\<close> builds from it with boundary vectors \<open>(1, 0)\<close>,
  of the length 2 that the constructor asks for.
\<close>

definition id_op_tensor :: ndarray where
  "id_op_tensor = \<lparr>shape = [2, 1, 2, 1], data = [1, 0, 0, 1]\<rparr>"

definition id_mpo :: MPO where
  "id_mpo =
     \<lparr>mpo_l_uc = 1, mpo_L = Finite 1, mpo_tensors = [id_op_tensor], mpo_d = 2, mpo_chi = 2,
      mpo_bdry_vecs = [Arr [1, 0], Arr [1, 0]]\<rparr>"

text \<open>A state that is not in canonical form: complex entries, \<open>d = 2\<close>, \<open>chi = 1\<close>.\<close>

definition complex_tensor :: ndarray where
  "complex_tensor = \<lparr>shape = [2, 1, 1], data = [1 + \<i>, 2]\<rparr>"

definition complex_state :: "int \<Rightarrow> MPS" where
  "complex_state L =
     \<lparr>mps_l_uc = 1, mps_L = Finite L, mps_tensors = [complex_tensor], mps_d = 2, mps_chi = 1,
      mps_bdry_vecs = (Some [2 * \<i>], None)\<rparr>"

text \<open>
  The operator of the test script: the SWAP matrix as a tensor of shape \<open>(2, 2, 2, 2)\<close>
  with boundary vectors \<open>(1, 0)\<close>; and the state above with a fixed right boundary.
\<close>

definition swap_op_tensor :: ndarray where
  "swap_op_tensor =
     \<lparr>shape = [2, 2, 2, 2], data = [1, 0, 0, 0, 0, 0, 1, 0, 0, 1, 0, 0, 0, 0, 0, 1]\<rparr>"

definition swap_mpo :: MPO where
  "swap_mpo =
     \<lparr>mpo_l_uc = 1, mpo_L = Finite 1, mpo_tensors = [swap_op_tensor], mpo_d = 2, mpo_chi = 2,
      mpo_bdry_vecs = [Arr [1, 0], Arr [1, 0]]\<rparr>"

definition complex_state_fixed :: "int \<Rightarrow> MPS" where
  "complex_state_fixed L =
     \<lparr>mps_l_uc = 1, mps_L = Finite L, mps_tensors = [complex_tensor], mps_d = 2, mps_chi = 1,
      mps_bdry_vecs = (Some [2 * \<i>], Some [1])\<rparr>"

section \<open>Auxiliary facts\<close>

subsection \<open>Error propagation and finite sums\<close>

lemma bindE_Inr [simp]: "bindE (Inr x) f = f x"
  by (simp add: bindE_def)

lemma bindE_Inl [simp]: "bindE (Inl e) f = Inl e"
  by (simp add: bindE_def)

lemma sumN_sum: "sumN n f = (\<Sum>k<n. f k)"
  by (simp add: sumN_def interv_sum_list_conv_sum_set_nat atLeast0LessThan)

lemma sumN_cong: "(\<And>k. k < n \<Longrightarrow> f k = g k) \<Longrightarrow> sumN n f = sumN n g"
  by (simp add: sumN_sum)

subsection \<open>Arrays given by their entries\<close>

lemma flat_lt: "i < N \<Longrightarrow> j < M \<Longrightarrow> i * M + j < N * (M::nat)"
proof -
  assume a: "i < N" "j < M"
  then have "i * M + j < i * M + M" by simp
  also have "\<dots> = (Suc i) * M" by simp
  also from a have "\<dots> \<le> N * M" by (intro mult_le_mono1) simp
  finally show ?thesis .
qed

lemma elem_mat_of: "i < N \<Longrightarrow> j < N \<Longrightarrow> elem (mat_of N f) [i, j] = f i j"
  by (simp add: elem_def mat_of_def ravel_def flat_lt)

lemma elem_vec_of: "i < N \<Longrightarrow> elem (vec_of N v) [i] = v i"
  by (simp add: elem_def vec_of_def ravel_def)

lemma mat_of_cong: "(\<And>i j. i < N \<Longrightarrow> j < N \<Longrightarrow> f i j = g i j) \<Longrightarrow> mat_of N f = mat_of N g"
proof -
  assume h: "\<And>i j. i < N \<Longrightarrow> j < N \<Longrightarrow> f i j = g i j"
  have "\<And>k. k < N * N \<Longrightarrow> f (k div N) (k mod N) = g (k div N) (k mod N)"
  proof -
    fix k assume k: "k < N * N"
    then have "0 < N" by (cases N) auto
    then show "f (k div N) (k mod N) = g (k div N) (k mod N)"
      using k by (intro h) (simp_all add: less_mult_imp_div_less)
  qed
  then show ?thesis by (simp add: mat_of_def)
qed

lemma vec_of_cong: "(\<And>i. i < N \<Longrightarrow> v i = w i) \<Longrightarrow> vec_of N v = vec_of N w"
  by (simp add: vec_of_def)

lemma matmul_mat_mat: "matmul (mat_of N f) (mat_of N g) = Inr (mat_of N (mm N f g))"
proof -
  have "\<And>q. q < N * N \<Longrightarrow>
      sumN N (\<lambda>l. elem (mat_of N f) [q div N, l] * elem (mat_of N g) [l, q mod N])
      = mm N f g (q div N) (q mod N)"
  proof -
    fix q assume q: "q < N * N"
    then have N: "0 < N" by (cases N) auto
    from q have d: "q div N < N" by (simp add: less_mult_imp_div_less)
    from N have m: "q mod N < N" by simp
    show "sumN N (\<lambda>l. elem (mat_of N f) [q div N, l] * elem (mat_of N g) [l, q mod N])
      = mm N f g (q div N) (q mod N)"
      unfolding mm_def sumN_sum using d m by (simp add: elem_mat_of)
  qed
  then show ?thesis
    by (simp add: matmul_def mat_of_def[of N "mm N f g"]) (simp add: mat_of_def)
qed

lemma matmul_mat_vec: "matmul (mat_of N f) (vec_of N v) = Inr (vec_of N (mv N f v))"
proof -
  have "\<And>q. q < N \<Longrightarrow> sumN N (\<lambda>l. elem (mat_of N f) [q, l] * elem (vec_of N v) [l]) = mv N f v q"
    unfolding mv_def sumN_sum by (simp add: elem_mat_of elem_vec_of)
  then show ?thesis
    by (simp add: matmul_def vec_of_def[of N "mv N f v"]) (simp add: mat_of_def vec_of_def)
qed

subsection \<open>The per-site transfer matrix\<close>

text \<open>
  The three numpy steps of the loop body, on a site tensor of shape \<open>(d, n, n)\<close>: the
  contraction over the physical axis, the exchange of axes 1 and 2, and the reshape to a
  square matrix. Together they give the matrix \<open>site_matrix\<close>.
\<close>

lemma unravel4:
  "unravel [n0, n1, n2, n3] k =
     [k div n3 div n2 div n1 mod n0, k div n3 div n2 mod n1, k div n3 mod n2, k mod n3]"
  by (simp add: unravel_def)

lemma ravel4: "ravel [n0, n1, n2, n3] [a, b, c, e] = ((a * n1 + b) * n2 + c) * n3 + e"
  by (simp add: ravel_def)

lemma ravel3: "ravel [n0, n1, n2] [a, b, c] = (a * n1 + b) * n2 + c"
  by (simp add: ravel_def)

lemma flat3_lt: "p < d \<Longrightarrow> a < n \<Longrightarrow> b < m \<Longrightarrow> (p * n + a) * m + b < d * n * (m::nat)"
  using flat_lt[of "p * n + a" "d * n" b m] flat_lt[of p d a n] by simp

lemma flat4_lt:
  "a < n0 \<Longrightarrow> b < n1 \<Longrightarrow> c < n2 \<Longrightarrow> e < n3 \<Longrightarrow> ((a * n1 + b) * n2 + c) * n3 + e < n0 * n1 * n2 * (n3::nat)"
  using flat_lt[of "(a * n1 + b) * n2 + c" "n0 * n1 * n2" e n3] flat3_lt[of a n0 b n1 c n2] by simp

lemma elem_conj3:
  assumes "shape A = [d, n, m]" "wf_nd A" "p < d" "a < n" "b < m"
  shows "elem (conj_nd A) [p, a, b] = cnj (elem A [p, a, b])"
proof -
  have "(p * n + a) * m + b < length (data A)"
    using assms flat3_lt[of p d a n b m] by (simp add: wf_nd_def)
  then show ?thesis using assms by (simp add: elem_def conj_nd_def ravel3)
qed

lemma tensordot_site:
  assumes sh: "shape A = [d, n, n]" and wf: "wf_nd A"
  shows "tensordot (conj_nd A) A 0 0 =
     Inr \<lparr>shape = [n, n, n, n],
          data = map (\<lambda>k. sumN d (\<lambda>p. cnj (elem A [p, k div n div n div n mod n, k div n div n mod n])
                                      * elem A [p, k div n mod n, k mod n]))
                     [0..<n * n * n * n]\<rparr>"
proof -
  have "\<And>k. k < n * n * n * n \<Longrightarrow>
      sumN d (\<lambda>p. elem (conj_nd A) [p, k div n div n div n mod n, k div n div n mod n]
                    * elem A [p, k div n mod n, k mod n])
    = sumN d (\<lambda>p. cnj (elem A [p, k div n div n div n mod n, k div n div n mod n])
                    * elem A [p, k div n mod n, k mod n])"
  proof -
    fix k assume "k < n * n * n * n"
    then have n: "0 < n" by (cases n) auto
    show "sumN d (\<lambda>p. elem (conj_nd A) [p, k div n div n div n mod n, k div n div n mod n]
                    * elem A [p, k div n mod n, k mod n])
    = sumN d (\<lambda>p. cnj (elem A [p, k div n div n div n mod n, k div n div n mod n])
                    * elem A [p, k div n mod n, k mod n])"
      by (rule sumN_cong) (simp add: elem_conj3[OF sh wf] n)
  qed
  then show ?thesis
    using sh by (simp add: tensordot_def conj_nd_def drop_nth_def insert_nth_def unravel4 Let_def mult.assoc)
qed

lemma swapaxes_site:
  fixes h :: "nat \<Rightarrow> nat \<Rightarrow> nat \<Rightarrow> nat \<Rightarrow> complex"
  shows "swapaxes \<lparr>shape = [n, n, n, n],
            data = map (\<lambda>k. h (k div n div n div n mod n) (k div n div n mod n) (k div n mod n) (k mod n))
                       [0..<n * n * n * n]\<rparr> 1 2 =
     Inr \<lparr>shape = [n, n, n, n],
          data = map (\<lambda>k. h (k div n div n div n mod n) (k div n mod n) (k div n div n mod n) (k mod n))
                     [0..<n * n * n * n]\<rparr>"
proof -
  let ?T = "\<lparr>shape = [n, n, n, n],
            data = map (\<lambda>k. h (k div n div n div n mod n) (k div n div n mod n) (k div n mod n) (k mod n))
                       [0..<n * n * n * n]\<rparr>"
  have el: "\<And>a b c e. a < n \<Longrightarrow> b < n \<Longrightarrow> c < n \<Longrightarrow> e < n \<Longrightarrow> elem ?T [a, b, c, e] = h a b c e"
  proof -
    fix a b c e assume a: "a < n" "b < n" "c < n" "e < n"
    have lt: "((a * n + b) * n + c) * n + e < n * n * n * n" using a by (rule flat4_lt)
    have 1: "(((a * n + b) * n + c) * n + e) mod n = e" using a by simp
    have 2: "(((a * n + b) * n + c) * n + e) div n = (a * n + b) * n + c" using a by simp
    have 3: "((a * n + b) * n + c) mod n = c" using a by simp
    have 4: "((a * n + b) * n + c) div n = a * n + b" using a by simp
    have 5: "(a * n + b) mod n = b" "(a * n + b) div n = a" "a mod n = a" using a by simp_all
    show "elem ?T [a, b, c, e] = h a b c e"
      using lt a by (simp add: elem_def ravel4 1 2 3 4 5)
  qed
  have "\<And>k. k < n * n * n * n \<Longrightarrow>
      elem ?T [k div n div n div n mod n, k div n mod n, k div n div n mod n, k mod n]
      = h (k div n div n div n mod n) (k div n mod n) (k div n div n mod n) (k mod n)"
  proof -
    fix k assume "k < n * n * n * n"
    then have n: "0 < n" by (cases n) auto
    show "elem ?T [k div n div n div n mod n, k div n mod n, k div n div n mod n, k mod n]
      = h (k div n div n div n mod n) (k div n mod n) (k div n div n mod n) (k mod n)"
      by (rule el) (simp_all add: n)
  qed
  then show ?thesis
    by (simp add: swapaxes_def swap_list_def unravel4 Let_def mult.assoc)
qed

lemma divmod_sq:
  assumes "0 < (n::nat)"
  shows "k div (n * n) div n = k div n div n div n"
    and "k mod (n * n) div n = k div n mod n"
    and "k div (n * n) mod n = k div n div n mod n"
    and "k mod (n * n) mod n = k mod n"
proof -
  show "k div (n * n) div n = k div n div n div n" by (simp add: div_mult2_eq)
  show "k mod (n * n) div n = k div n mod n" using assms by (simp add: mod_mult2_eq)
  show "k div (n * n) mod n = k div n div n mod n" by (simp add: div_mult2_eq)
  show "k mod (n * n) mod n = k mod n" by (simp add: mod_mult2_eq)
qed

lemma t_mat_site_none_eq:
  assumes j: "j < length (mps_tensors s)" and A: "mps_tensors s ! j = A"
    and sh: "shape A = [d, n, n]" and wf: "wf_nd A" and chi: "mps_chi s = n"
  shows "t_mat_site_none s j = Inr (mat_of (n * n) (site_matrix A n))"
proof -
  define h where "h = (\<lambda>a b c e. sumN d (\<lambda>p. cnj (elem A [p, a, b]) * elem A [p, c, e]))"
  have td: "tensordot (conj_nd A) A 0 0 =
     Inr \<lparr>shape = [n, n, n, n],
          data = map (\<lambda>k. h (k div n div n div n mod n) (k div n div n mod n) (k div n mod n) (k mod n))
                     [0..<n * n * n * n]\<rparr>"
    unfolding h_def by (rule tensordot_site[OF sh wf])
  have fin: "\<And>k. k < n * n * (n * n) \<Longrightarrow>
     h (k div n div n div n mod n) (k div n mod n) (k div n div n mod n) (k mod n)
     = site_matrix A n (k div (n * n)) (k mod (n * n))"
  proof -
    fix k assume k: "k < n * n * (n * n)"
    then have n: "0 < n" by (cases n) auto
    from k have "k div n div n div n < n"
      by (simp add: less_mult_imp_div_less mult.assoc)
    then show "h (k div n div n div n mod n) (k div n mod n) (k div n div n mod n) (k mod n)
     = site_matrix A n (k div (n * n)) (k mod (n * n))"
      by (simp add: site_matrix_def contract_physical_def h_def sh divmod_sq[OF n])
  qed
  have sw: "bindE (tensordot (conj_nd A) A 0 0) (\<lambda>t. swapaxes t 1 2) =
     Inr \<lparr>shape = [n, n, n, n],
          data = map (\<lambda>k. h (k div n div n div n mod n) (k div n mod n) (k div n div n mod n) (k mod n))
                     [0..<n * n * n * n]\<rparr>"
    unfolding td bindE_Inr by (rule swapaxes_site)
  have "t_mat_site_none s j =
      bindE (bindE (tensordot (conj_nd A) A 0 0) (\<lambda>t. swapaxes t 1 2)) (\<lambda>sw. reshape sw [n * n, n * n])"
    using j A chi by (simp add: t_mat_site_none_def get_nth_def power2_eq_square bindE_def split: sum.splits)
  also have "\<dots> = Inr (mat_of (n * n) (site_matrix A n))"
    unfolding sw using fin by (simp add: reshape_def size_nd_def mat_of_def mult.assoc)
  finally show ?thesis .
qed



subsection \<open>Products, identity and powers on entries\<close>

lemma mm_assoc: "mm N (mm N F G) H = mm N F (mm N G H)"
proof (intro ext)
  fix i j
  have "mm N (mm N F G) H i j = (\<Sum>k<N. \<Sum>l<N. F i l * G l k * H k j)"
    by (simp add: mm_def sum_distrib_right)
  also have "\<dots> = (\<Sum>l<N. \<Sum>k<N. F i l * G l k * H k j)"
    by (rule sum.swap)
  also have "\<dots> = mm N F (mm N G H) i j"
    by (simp add: mm_def sum_distrib_left mult.assoc)
  finally show "mm N (mm N F G) H i j = mm N F (mm N G H) i j" .
qed

lemma mm_idm_left: "i < N \<Longrightarrow> mm N idm G i j = G i j"
proof -
  assume i: "i < N"
  have "mm N idm G i j = (\<Sum>k<N. if k = i then G k j else 0)"
    unfolding mm_def idm_def by (rule sum.cong) auto
  also have "\<dots> = G i j" using i by (simp add: sum.delta)
  finally show ?thesis .
qed

lemma mm_idm_right: "j < N \<Longrightarrow> mm N F idm i j = F i j"
proof -
  assume j: "j < N"
  have "mm N F idm i j = (\<Sum>k<N. if k = j then F i k else 0)"
    unfolding mm_def idm_def by (rule sum.cong) auto
  also have "\<dots> = F i j" using j by (simp add: sum.delta)
  finally show ?thesis .
qed

lemma mv_mm: "mv N (mm N F G) v = mv N F (mv N G v)"
proof (intro ext)
  fix i
  have "mv N (mm N F G) v i = (\<Sum>k<N. \<Sum>l<N. F i l * G l k * v k)"
    by (simp add: mv_def mm_def sum_distrib_right)
  also have "\<dots> = (\<Sum>l<N. \<Sum>k<N. F i l * G l k * v k)"
    by (rule sum.swap)
  also have "\<dots> = mv N F (mv N G v) i"
    by (simp add: mv_def sum_distrib_left mult.assoc)
  finally show "mv N (mm N F G) v i = mv N F (mv N G v) i" .
qed

lemma eye_idm: "eye N = mat_of N idm"
  by (simp add: eye_def mat_of_def idm_def)

lemma mat_pow_mat_of: "mat_pow (mat_of N F) N k = Inr (mat_of N (pw N F k))"
  by (induction k) (simp_all add: eye_idm matmul_mat_mat)

lemma shape_mat_of: "shape (mat_of N F) = [N, N]"
  by (simp add: mat_of_def)

lemma matrix_power_mat_of: "0 \<le> L \<Longrightarrow> matrix_power (mat_of N F) L = Inr (mat_of N (pw N F (nat L)))"
  by (simp add: matrix_power_def shape_mat_of mat_pow_mat_of)

subsection \<open>The loop over the unit cell\<close>

lemma tm_loop_sites:
  "map site js = map (\<lambda>A. Inr (mat_of (n * n) (site_matrix A n))) As \<Longrightarrow>
   tm_loop site js (mat_of (n * n) G) = Inr (mat_of (n * n) (mm (n * n) (unit_cell_product n As) G))"
proof (induction n As arbitrary: js G rule: unit_cell_product.induct)
  case (1 n)
  then have "js = []" by simp
  moreover have "mat_of (n * n) G = mat_of (n * n) (mm (n * n) idm G)"
    by (rule mat_of_cong) (simp add: mm_idm_left)
  ultimately show ?case by simp
next
  case (2 n A)
  then obtain j where "js = [j]" "site j = Inr (mat_of (n * n) (site_matrix A n))"
    by (cases js) auto
  then show ?case by (simp add: matmul_mat_mat)
next
  case (3 n A B Bs)
  then obtain j js' where js: "js = j # js'" "site j = Inr (mat_of (n * n) (site_matrix A n))"
    and rest: "map site js' = map (\<lambda>A. Inr (mat_of (n * n) (site_matrix A n))) (B # Bs)"
    by (cases js) auto
  have "tm_loop site js (mat_of (n * n) G) =
        tm_loop site js' (mat_of (n * n) (mm (n * n) (site_matrix A n) G))"
    using js by (simp add: matmul_mat_mat)
  also have "\<dots> = Inr (mat_of (n * n)
        (mm (n * n) (unit_cell_product n (B # Bs)) (mm (n * n) (site_matrix A n) G)))"
    by (rule "3.IH"[OF rest])
  finally show ?case by (simp add: mm_assoc)
qed

lemma MPS_init_fields:
  assumes "MPS_init ts L bv = Inr s"
  shows "mps_tensors s = ts" "mps_l_uc s = length ts" "mps_L s = L" "ts \<noteq> []"
    "index_size (hd ts) [Ix 0, All, Ix 0] = Inr (mps_chi s)"
    "index_size (hd ts) [All, Ix 0, Ix 0] = Inr (mps_d s)"
    "\<exists>l. fst bv = Some l \<and> l \<noteq> [] \<and> length l = mps_chi s \<and> fst (mps_bdry_vecs s) = Some l"
    "snd (mps_bdry_vecs s) = (if is_None (snd bv) then None else snd bv)"
    "\<not> is_None (snd bv) \<longrightarrow> length (the (snd bv)) = mps_chi s"
  using assms
  by (auto simp add: MPS_init_def bindE_def is_None_def split: list.splits sum.splits option.splits if_splits)

lemma valid_site_chi:
  assumes "MPS_init ts L bv = Inr s" "list_all (valid_site n) ts"
  shows "mps_chi s = n" "0 < n"
proof -
  from assms(1) have ne: "ts \<noteq> []" and ix: "index_size (hd ts) [Ix 0, All, Ix 0] = Inr (mps_chi s)"
    by (rule MPS_init_fields)+
  from ne assms(2) have "valid_site n (hd ts)" by (cases ts) simp_all
  then have sh: "shape (hd ts) = [hd (shape (hd ts)), n, n]" by (simp add: valid_site_def)
  from ix show "mps_chi s = n" "0 < n"
    by (subst (asm) index_size_def, subst (asm) sh, simp add: bindE_def split: if_splits)+
qed

lemma transfer_matrix_none:
  assumes init: "MPS_init ts L bv = Inr s" and valid: "list_all (valid_site n) ts"
  shows "transfer_matrix s None = Inr (mat_of (n * n) (unit_cell_product n ts))"
proof -
  have chi: "mps_chi s = n" using init valid by (rule valid_site_chi)
  have ts: "mps_tensors s = ts" and l: "mps_l_uc s = length ts"
    using init by (rule MPS_init_fields)+
  have sites: "map (t_mat_site_none s) [0..<length ts] =
      map (\<lambda>A. Inr (mat_of (n * n) (site_matrix A n))) ts"
  proof (rule nth_equalityI)
    show "length (map (t_mat_site_none s) [0..<length ts]) =
        length (map (\<lambda>A. Inr (mat_of (n * n) (site_matrix A n))) ts)" by simp
  next
    fix j assume "j < length (map (t_mat_site_none s) [0..<length ts])"
    then have j: "j < length ts" by simp
    with valid have v: "valid_site n (ts ! j)" by (simp add: list_all_length)
    have "t_mat_site_none s j = Inr (mat_of (n * n) (site_matrix (ts ! j) n))"
    proof (rule t_mat_site_none_eq)
      show "j < length (mps_tensors s)" using j ts by simp
      show "mps_tensors s ! j = ts ! j" using ts by simp
      show "shape (ts ! j) = [hd (shape (ts ! j)), n, n]" using v by (simp add: valid_site_def)
      show "wf_nd (ts ! j)" using v by (simp add: valid_site_def)
      show "mps_chi s = n" by (rule chi)
    qed
    then show "map (t_mat_site_none s) [0..<length ts] ! j =
        map (\<lambda>A. Inr (mat_of (n * n) (site_matrix A n))) ts ! j"
      using j by simp
  qed
  have "transfer_matrix s None = tm_loop (t_mat_site_none s) [0..<length ts] (mat_of (n * n) idm)"
    by (simp add: transfer_matrix_def chi l power2_eq_square eye_idm)
  also have "\<dots> = Inr (mat_of (n * n) (mm (n * n) (unit_cell_product n ts) idm))"
    by (rule tm_loop_sites[OF sites])
  also have "mat_of (n * n) (mm (n * n) (unit_cell_product n ts) idm) =
      mat_of (n * n) (unit_cell_product n ts)"
    by (rule mat_of_cong) (simp add: mm_idm_right)
  finally show ?thesis .
qed



subsection \<open>Sums over the doubled bond space, and the traced-out right boundary\<close>

lemma sum_flat: "(\<Sum>k<n * m. g k) = (\<Sum>a<(n::nat). \<Sum>c<m. (g (a * m + c) :: complex))"
proof -
  have "(\<Sum>k<n * m. g k) = (\<Sum>a<n. sum g {a * m..<a * m + m})"
    by (rule sum.nat_group[symmetric])
  also have "\<dots> = (\<Sum>a<n. \<Sum>c<m. g (a * m + c))"
  proof (rule sum.cong)
    fix a
    have "sum g {a * m..<a * m + m} = sum g {0 + a * m..<m + a * m}" by (simp add: add.commute)
    also have "\<dots> = (\<Sum>c = 0..<m. g (c + a * m))" by (rule sum.shift_bounds_nat_ivl)
    finally show "sum g {a * m..<a * m + m} = (\<Sum>c<m. g (a * m + c))"
      by (simp add: atLeast0LessThan add.commute)
  qed simp
  finally show ?thesis .
qed

lemma sum_diag: "(\<Sum>k<n * n. (if k div n = k mod n then 1 else 0) * w k) = (\<Sum>a<(n::nat). (w (a * n + a) :: complex))"
proof -
  have "(\<Sum>k<n * n. (if k div n = k mod n then 1 else 0) * w k)
      = (\<Sum>a<n. \<Sum>c<n. (if (a * n + c) div n = (a * n + c) mod n then 1 else 0) * w (a * n + c))"
    by (rule sum_flat)
  also have "\<dots> = (\<Sum>a<n. \<Sum>c<n. if c = a then w (a * n + c) else 0)"
    by (intro sum.cong refl) auto
  also have "\<dots> = (\<Sum>a<n. w (a * n + a))"
    by (intro sum.cong refl) (simp add: sum.delta)
  finally show ?thesis .
qed

lemma kron_nth:
  "kron u v = map (\<lambda>k. u ! (k div length v) * v ! (k mod length v)) [0..<length u * length v]"
proof (rule nth_equalityI)
  show "length (kron u v) = length (map (\<lambda>k. u ! (k div length v) * v ! (k mod length v)) [0..<length u * length v])"
    by (simp add: kron_def)
next
  fix i assume "i < length (kron u v)"
  then have i: "i < length u * length v" by (simp add: kron_def)
  then show "kron u v ! i = map (\<lambda>k. u ! (k div length v) * v ! (k mod length v)) [0..<length u * length v] ! i"
    by (simp add: kron_def product_nth)
qed

lemma vec_kron_conj:
  assumes "length l = n"
  shows "vec (kron (map cnj l) l) = vec_of (n * n) (\<lambda>k. cnj (l ! (k div n)) * l ! (k mod n))"
proof -
  have "\<And>k. k < n * n \<Longrightarrow> map cnj l ! (k div n) = cnj (l ! (k div n))"
  proof -
    fix k assume k: "k < n * n"
    then have "k div n < length l" using assms by (simp add: less_mult_imp_div_less)
    then show "map cnj l ! (k div n) = cnj (l ! (k div n))" by simp
  qed
  then show ?thesis
    using assms by (simp add: kron_nth vec_def vec_of_def)
qed

lemma matmul_vec_vec:
  "matmul (vec_of N u) (vec_of N w) = Inr \<lparr>shape = [], data = [\<Sum>k<N. u k * w k]\<rparr>"
  by (simp add: matmul_def vec_of_def sumN_sum elem_def ravel_def)

lemma matmul_vec_mat:
  "matmul (vec_of N u) (mat_of N f) = Inr (vec_of N (\<lambda>j. \<Sum>k<N. u k * f k j))"
proof -
  have "\<And>q. q < N \<Longrightarrow> sumN N (\<lambda>l. elem (vec_of N u) [l] * elem (mat_of N f) [l, q])
      = (\<Sum>k<N. u k * f k q)"
    unfolding sumN_sum by (simp add: elem_mat_of elem_vec_of)
  then show ?thesis
    by (simp add: matmul_def vec_of_def[of N "\<lambda>j. \<Sum>k<N. u k * f k j"])
       (simp add: mat_of_def vec_of_def)
qed

lemma eye_reshape: "reshape (eye n) [n * n] = Inr (vec_of (n * n) (\<lambda>k. if k div n = k mod n then 1 else 0))"
  by (simp add: reshape_def eye_def size_nd_def vec_of_def)

lemma reshape_vec_of: "reshape (vec_of N v) [N] = Inr (vec_of N v)"
  by (simp add: reshape_def size_nd_def vec_of_def)

lemma expect_none_trace:
  assumes chi: "mps_chi s = n" and l: "fst (mps_bdry_vecs s) = Some l" "length l = n"
    and r: "snd (mps_bdry_vecs s) = None"
  shows "expect_none s (mat_of (n * n) P) =
     Inr (\<Sum>a<n. mv (n * n) P (\<lambda>k. cnj (l ! (k div n)) * l ! (k mod n)) (a * n + a))"
  using l(1) r
  by (simp add: expect_none_def chi is_None_def vec_kron_conj[OF l(2)] matmul_mat_vec
      power2_eq_square reshape_vec_of eye_reshape dot_def matmul_vec_vec item_def elem_def
      ravel_def sum_diag)


subsection \<open>Right-canonical tensors preserve the trace\<close>

lemma trace_preserving_idm: "trace_preserving n idm"
  unfolding trace_preserving_def
proof (intro allI impI)
  fix j assume j: "j < n * n"
  have "(\<Sum>a<n. idm (a * n + a) j) = (\<Sum>k<n * n. (if k div n = k mod n then 1 else 0) * idm k j)"
    by (rule sum_diag[symmetric])
  also have "\<dots> = (\<Sum>k<n * n. if k = j then (if k div n = k mod n then 1 else 0) else 0)"
    by (intro sum.cong refl) (simp add: idm_def)
  also have "\<dots> = (if j div n = j mod n then 1 else 0)"
    using j by (simp add: sum.delta)
  finally show "(\<Sum>a<n. idm (a * n + a) j) = (if j div n = j mod n then 1 else 0)" .
qed

lemma trace_preserving_mm:
  assumes F: "trace_preserving n F" and G: "trace_preserving n G"
  shows "trace_preserving n (mm (n * n) F G)"
  unfolding trace_preserving_def
proof (intro allI impI)
  fix j assume j: "j < n * n"
  have "(\<Sum>a<n. mm (n * n) F G (a * n + a) j) = (\<Sum>a<n. \<Sum>k<n * n. F (a * n + a) k * G k j)"
    by (simp add: mm_def)
  also have "\<dots> = (\<Sum>k<n * n. \<Sum>a<n. F (a * n + a) k * G k j)"
    by (rule sum.swap)
  also have "\<dots> = (\<Sum>k<n * n. (\<Sum>a<n. F (a * n + a) k) * G k j)"
    by (simp add: sum_distrib_right)
  also have "\<dots> = (\<Sum>k<n * n. (if k div n = k mod n then 1 else 0) * G k j)"
    using F by (intro sum.cong refl) (simp add: trace_preserving_def)
  also have "\<dots> = (\<Sum>a<n. G (a * n + a) j)"
    by (rule sum_diag)
  also have "\<dots> = (if j div n = j mod n then 1 else 0)"
    using G j by (simp add: trace_preserving_def)
  finally show "(\<Sum>a<n. mm (n * n) F G (a * n + a) j) = (if j div n = j mod n then 1 else 0)" .
qed

lemma trace_preserving_site:
  assumes v: "valid_site n A" and rc: "right_canonical A"
  shows "trace_preserving n (site_matrix A n)"
  unfolding trace_preserving_def
proof (intro allI impI)
  fix j assume j: "j < n * n"
  then have n: "0 < n" by (cases n) auto
  define d where "d = hd (shape A)"
  have sh: "shape A = [d, n, n]" using v by (simp add: valid_site_def d_def)
  have b: "j div n < n" using j by (simp add: less_mult_imp_div_less)
  have e: "j mod n < n" using n by simp
  have iso: "(\<Sum>p<d. \<Sum>a<n. cnj (elem A [p, a, j div n]) * elem A [p, a, j mod n])
      = (if j div n = j mod n then 1 else 0)"
    using rc b e by (simp add: right_canonical_def sh list_all_iff sumN_sum)
  have "(\<Sum>a<n. site_matrix A n (a * n + a) j)
      = (\<Sum>a<n. \<Sum>p<d. cnj (elem A [p, a, j div n]) * elem A [p, a, j mod n])"
    by (intro sum.cong refl) (simp add: site_matrix_def contract_physical_def sumN_sum sh)
  also have "\<dots> = (\<Sum>p<d. \<Sum>a<n. cnj (elem A [p, a, j div n]) * elem A [p, a, j mod n])"
    by (rule sum.swap)
  finally show "(\<Sum>a<n. site_matrix A n (a * n + a) j) = (if j div n = j mod n then 1 else 0)"
    using iso by simp
qed

lemma trace_preserving_unit_cell:
  "list_all (valid_site n) ts \<Longrightarrow> list_all right_canonical ts \<Longrightarrow>
   trace_preserving n (unit_cell_product n ts)"
proof (induction n ts rule: unit_cell_product.induct)
  case (1 n)
  show ?case by (simp add: trace_preserving_idm)
next
  case (2 n A)
  then show ?case by (simp add: trace_preserving_site)
next
  case (3 n A B Bs)
  then show ?case by (simp add: trace_preserving_site trace_preserving_mm)
qed

lemma trace_preserving_pw: "trace_preserving n F \<Longrightarrow> trace_preserving n (pw (n * n) F k)"
  by (induction k) (simp_all add: trace_preserving_idm trace_preserving_mm)

lemma trace_preserving_apply:
  assumes "trace_preserving n P"
  shows "(\<Sum>a<n. mv (n * n) P v (a * n + a)) = (\<Sum>a<n. v (a * n + a))"
proof -
  have "(\<Sum>a<n. mv (n * n) P v (a * n + a)) = (\<Sum>a<n. \<Sum>k<n * n. P (a * n + a) k * v k)"
    by (simp add: mv_def)
  also have "\<dots> = (\<Sum>k<n * n. \<Sum>a<n. P (a * n + a) k * v k)"
    by (rule sum.swap)
  also have "\<dots> = (\<Sum>k<n * n. (\<Sum>a<n. P (a * n + a) k) * v k)"
    by (simp add: sum_distrib_right)
  also have "\<dots> = (\<Sum>k<n * n. (if k div n = k mod n then 1 else 0) * v k)"
    using assms by (intro sum.cong refl) (simp add: trace_preserving_def)
  also have "\<dots> = (\<Sum>a<n. v (a * n + a))"
    by (rule sum_diag)
  finally show ?thesis .
qed

lemma expect_none_finite:
  assumes init: "MPS_init ts (Finite L) (Some l, None) = Inr s"
    and valid: "list_all (valid_site n) ts" and L: "0 \<le> L"
  shows "expect s None =
     Inr (\<Sum>a<n. mv (n * n) (pw (n * n) (unit_cell_product n ts) (nat L))
                     (\<lambda>k. cnj (l ! (k div n)) * l ! (k mod n)) (a * n + a))"
proof -
  have chi: "mps_chi s = n" using init valid by (rule valid_site_chi)
  have sL: "mps_L s = Finite L" using init by (rule MPS_init_fields)
  from MPS_init_fields(7)[OF init] have l: "fst (mps_bdry_vecs s) = Some l" "length l = n"
    using chi by auto
  from MPS_init_fields(8)[OF init] have r: "snd (mps_bdry_vecs s) = None"
    by (simp add: is_None_def)
  show ?thesis
    by (simp add: expect_def sL transfer_matrix_none[OF init valid] matrix_power_mat_of[OF L]
        expect_none_trace[OF chi l r])
qed

lemma unit_norm_sum:
  assumes "sum_list (map (\<lambda>x. (cmod x)\<^sup>2) l) = 1" and "length l = n"
  shows "(\<Sum>a<n. cnj (l ! a) * l ! a) = 1"
proof -
  have "(\<Sum>a<n. cnj (l ! a) * l ! a) = (\<Sum>a<n. complex_of_real ((cmod (l ! a))\<^sup>2))"
    by (intro sum.cong refl) (metis complex_norm_square mult.commute)
  also have "\<dots> = complex_of_real (\<Sum>a<n. (cmod (l ! a))\<^sup>2)" by simp
  also have "(\<Sum>a<n. (cmod (l ! a))\<^sup>2) = sum_list (map (\<lambda>x. (cmod x)\<^sup>2) l)"
    using assms(2) by (simp add: sum_list_sum_nth atLeast0LessThan)
  finally show ?thesis using assms(1) by simp
qed

subsection \<open>Site matrices preserve Gram vectors\<close>

lemma gram_boundary: "gram n (\<lambda>k. cnj (l ! (k div n)) * l ! (k mod n))"
  unfolding gram_def by (rule exI[of _ "[\<lambda>a. l ! a]"]) simp

lemma gram_cong: "(\<And>k. k < n * n \<Longrightarrow> v k = w k) \<Longrightarrow> gram n v \<Longrightarrow> gram n w"
  unfolding gram_def by (metis flat_lt)

lemma mv_idm: "i < N \<Longrightarrow> mv N idm v i = v i"
proof -
  assume i: "i < N"
  have "mv N idm v i = (\<Sum>k<N. if k = i then v k else 0)"
    unfolding mv_def idm_def by (rule sum.cong) auto
  also have "\<dots> = v i" using i by (simp add: sum.delta)
  finally show ?thesis .
qed

lemma sum4_reorder:
  fixes h :: "'a \<Rightarrow> 'b \<Rightarrow> 'c \<Rightarrow> 'd \<Rightarrow> complex"
  shows "(\<Sum>b\<in>B. \<Sum>e\<in>E. \<Sum>p\<in>P. \<Sum>i\<in>I. h b e p i) = (\<Sum>p\<in>P. \<Sum>i\<in>I. \<Sum>b\<in>B. \<Sum>e\<in>E. h b e p i)"
proof -
  have "(\<Sum>b\<in>B. \<Sum>e\<in>E. \<Sum>p\<in>P. \<Sum>i\<in>I. h b e p i) = (\<Sum>b\<in>B. \<Sum>p\<in>P. \<Sum>e\<in>E. \<Sum>i\<in>I. h b e p i)"
    by (rule sum.cong[OF refl]) (rule sum.swap)
  also have "\<dots> = (\<Sum>p\<in>P. \<Sum>b\<in>B. \<Sum>e\<in>E. \<Sum>i\<in>I. h b e p i)"
    by (rule sum.swap)
  also have "\<dots> = (\<Sum>p\<in>P. \<Sum>b\<in>B. \<Sum>i\<in>I. \<Sum>e\<in>E. h b e p i)"
    by (rule sum.cong[OF refl], rule sum.cong[OF refl], rule sum.swap)
  also have "\<dots> = (\<Sum>p\<in>P. \<Sum>i\<in>I. \<Sum>b\<in>B. \<Sum>e\<in>E. h b e p i)"
    by (rule sum.cong[OF refl], rule sum.swap)
  finally show ?thesis .
qed

lemma sum_list_nth_sum: "(\<Sum>x\<leftarrow>xs. (f x :: complex)) = (\<Sum>i<length xs. f (xs ! i))"
  by (simp add: sum_list_sum_nth atLeast0LessThan)

lemma sum_list_concat_map:
  "sum_list (map f (concat xss)) = (\<Sum>xs\<leftarrow>xss. sum_list (map f xs) :: 'a :: comm_monoid_add)"
  by (induction xss) simp_all

lemma of_real_sum_list_map:
  "complex_of_real (sum_list (map f xs)) = (\<Sum>x\<leftarrow>xs. complex_of_real (f x))"
  by (induction xs) simp_all

lemma gram_site:
  assumes g: "gram n v"
  shows "gram n (mv (n * n) (site_matrix A n) v)"
proof -
  from g obtain xs :: "(nat \<Rightarrow> complex) list" where
    xs: "\<And>a c. a < n \<Longrightarrow> c < n \<Longrightarrow> v (a * n + c) = (\<Sum>x\<leftarrow>xs. cnj (x a) * x c)"
    unfolding gram_def by blast
  define d where "d = hd (shape A)"
  define T where "T = (\<lambda>p a b. elem A [p, a, b])"
  define ys where
    "ys = concat (map (\<lambda>p. map (\<lambda>x. (\<lambda>a. \<Sum>b<n. T p a b * x b)) xs) [0..<d])"
  have "\<And>a c. a < n \<Longrightarrow> c < n \<Longrightarrow>
      mv (n * n) (site_matrix A n) v (a * n + c) = (\<Sum>y\<leftarrow>ys. cnj (y a) * y c)"
  proof -
    fix a c assume a: "a < n" and c: "c < n"
    have "mv (n * n) (site_matrix A n) v (a * n + c)
        = (\<Sum>b<n. \<Sum>e<n. site_matrix A n (a * n + c) (b * n + e) * v (b * n + e))"
      unfolding mv_def by (rule sum_flat)
    also have "\<dots> = (\<Sum>b<n. \<Sum>e<n. (\<Sum>p<d. cnj (T p a b) * T p c e)
                                      * (\<Sum>i<length xs. cnj ((xs ! i) b) * (xs ! i) e))"
      using a c
      by (intro sum.cong refl)
         (simp add: site_matrix_def contract_physical_def sumN_sum d_def T_def xs sum_list_nth_sum)
    also have "\<dots> = (\<Sum>b<n. \<Sum>e<n. \<Sum>p<d. \<Sum>i<length xs.
                        cnj (T p a b * (xs ! i) b) * (T p c e * (xs ! i) e))"
      by (intro sum.cong refl) (simp add: sum_product mult_ac)
    also have "\<dots> = (\<Sum>p<d. \<Sum>i<length xs. \<Sum>b<n. \<Sum>e<n.
                        cnj (T p a b * (xs ! i) b) * (T p c e * (xs ! i) e))"
      by (rule sum4_reorder)
    also have "\<dots> = (\<Sum>p<d. \<Sum>i<length xs.
                        cnj (\<Sum>b<n. T p a b * (xs ! i) b) * (\<Sum>e<n. T p c e * (xs ! i) e))"
      by (intro sum.cong refl) (simp add: sum_product)
    also have "\<dots> = (\<Sum>p\<leftarrow>[0..<d]. \<Sum>x\<leftarrow>xs.
                        cnj (\<Sum>b<n. T p a b * x b) * (\<Sum>e<n. T p c e * x e))"
      by (simp add: sum_list_nth_sum[of _ xs] interv_sum_list_conv_sum_set_nat atLeast0LessThan)
    also have "\<dots> = (\<Sum>y\<leftarrow>ys. cnj (y a) * y c)"
      by (simp add: ys_def sum_list_concat_map comp_def)
    finally show "mv (n * n) (site_matrix A n) v (a * n + c) = (\<Sum>y\<leftarrow>ys. cnj (y a) * y c)" .
  qed
  then show ?thesis unfolding gram_def by blast
qed

lemma gram_unit_cell: "gram n v \<Longrightarrow> gram n (mv (n * n) (unit_cell_product n ts) v)"
proof (induction n ts arbitrary: v rule: unit_cell_product.induct)
  case (1 n)
  have "\<And>k. k < n * n \<Longrightarrow> v k = mv (n * n) idm v k" by (simp add: mv_idm)
  then show ?case using "1.prems" by (simp add: gram_cong[of n v])
next
  case (2 n A)
  then show ?case by (simp add: gram_site)
next
  case (3 n A B Bs)
  have "gram n (mv (n * n) (site_matrix A n) v)" using "3.prems" by (rule gram_site)
  then have "gram n (mv (n * n) (unit_cell_product n (B # Bs)) (mv (n * n) (site_matrix A n) v))"
    by (rule "3.IH")
  then show ?case by (simp add: mv_mm)
qed

lemma gram_pw:
  assumes F: "\<And>w. gram n w \<Longrightarrow> gram n (mv (n * n) F w)"
  shows "gram n v \<Longrightarrow> gram n (mv (n * n) (pw (n * n) F k) v)"
proof (induction k)
  case 0
  have "\<And>j. j < n * n \<Longrightarrow> v j = mv (n * n) idm v j" by (simp add: mv_idm)
  then show ?case using "0.prems" by (simp add: gram_cong[of n v])
next
  case (Suc k)
  then have "gram n (mv (n * n) F (mv (n * n) (pw (n * n) F k) v))" by (intro F) simp
  then show ?case by (simp add: mv_mm)
qed

lemma gram_trace:
  assumes "gram n w"
  shows "\<exists>amps. (\<Sum>a<n. w (a * n + a)) = complex_of_real (\<Sum>z\<leftarrow>amps. (cmod z)\<^sup>2)"
proof -
  from assms obtain xs :: "(nat \<Rightarrow> complex) list" where
    xs: "\<And>a c. a < n \<Longrightarrow> c < n \<Longrightarrow> w (a * n + c) = (\<Sum>x\<leftarrow>xs. cnj (x a) * x c)"
    unfolding gram_def by blast
  define amps where "amps = concat (map (\<lambda>a. map (\<lambda>x. x a) xs) [0..<n])"
  have sq: "\<And>z. cnj z * z = complex_of_real ((cmod z)\<^sup>2)"
    by (metis complex_norm_square mult.commute)
  have "(\<Sum>a<n. w (a * n + a)) = (\<Sum>a<n. \<Sum>x\<leftarrow>xs. complex_of_real ((cmod (x a))\<^sup>2))"
    by (intro sum.cong refl) (simp only: xs sq lessThan_iff)
  also have "\<dots> = complex_of_real (\<Sum>z\<leftarrow>amps. (cmod z)\<^sup>2)"
    by (simp add: amps_def sum_list_concat_map comp_def of_real_sum_list_map
        interv_sum_list_conv_sum_set_nat atLeast0LessThan del: of_real_power)
  finally show ?thesis by blast
qed

lemma expect_normalised:
  assumes init: "MPS_init ts (Finite L) (Some l, None) = Inr s"
    and valid: "list_all (valid_site n) ts"
    and rc: "list_all right_canonical ts"
    and norm: "sum_list (map (\<lambda>x. (cmod x)\<^sup>2) l) = 1"
    and L: "1 \<le> L"
  shows "expect s None = Inr 1"
proof -
  have chi: "mps_chi s = n" using init valid by (rule valid_site_chi)
  have n: "0 < n" using init valid by (rule valid_site_chi)
  from MPS_init_fields(7)[OF init] have len: "length l = n" using chi by auto
  have tp: "trace_preserving n (pw (n * n) (unit_cell_product n ts) (nat L))"
    by (intro trace_preserving_pw trace_preserving_unit_cell valid rc)
  have "expect s None =
     Inr (\<Sum>a<n. mv (n * n) (pw (n * n) (unit_cell_product n ts) (nat L))
                     (\<lambda>k. cnj (l ! (k div n)) * l ! (k mod n)) (a * n + a))"
    using init valid L by (intro expect_none_finite) simp_all
  also have "(\<Sum>a<n. mv (n * n) (pw (n * n) (unit_cell_product n ts) (nat L))
                     (\<lambda>k. cnj (l ! (k div n)) * l ! (k mod n)) (a * n + a))
      = (\<Sum>a<n. cnj (l ! ((a * n + a) div n)) * l ! ((a * n + a) mod n))"
    by (rule trace_preserving_apply[OF tp])
  also have "\<dots> = (\<Sum>a<n. cnj (l ! a) * l ! a)"
    by (intro sum.cong refl) simp
  also have "\<dots> = 1" using norm len by (rule unit_norm_sum)
  finally show ?thesis .
qed

subsection \<open>A fixed right boundary\<close>

lemma mat_repr:
  assumes "shape T = [N, N]" and "wf_nd T"
  shows "T = mat_of N (\<lambda>i j. elem T [i, j])"
proof -
  have len: "length (data T) = N * N" using assms by (simp add: wf_nd_def)
  have "data T = map (\<lambda>k. elem T [k div N, k mod N]) [0..<N * N]"
  proof (rule nth_equalityI)
    show "length (data T) = length (map (\<lambda>k. elem T [k div N, k mod N]) [0..<N * N])"
      using len by simp
  next
    fix k assume "k < length (data T)"
    then have k: "k < N * N" using len by simp
    then show "data T ! k = map (\<lambda>k. elem T [k div N, k mod N]) [0..<N * N] ! k"
      by (simp add: elem_def assms(1) ravel_def)
  qed
  then have "data T = data (mat_of N (\<lambda>i j. elem T [i, j]))" by (simp add: mat_of_def)
  moreover have "shape T = shape (mat_of N (\<lambda>i j. elem T [i, j]))"
    using assms(1) by (simp add: mat_of_def)
  ultimately show ?thesis by simp
qed

lemma vec_repr: "length xs = N \<Longrightarrow> vec xs = vec_of N (\<lambda>k. xs ! k)"
  by (auto simp add: vec_def vec_of_def intro: nth_equalityI)

lemma conj_vec_repr: "length xs = N \<Longrightarrow> conj_nd (vec xs) = vec_of N (\<lambda>k. cnj (xs ! k))"
  by (auto simp add: vec_def vec_of_def conj_nd_def intro: nth_equalityI)

lemma length_kron: "length (kron u v) = length u * length v"
  by (simp add: kron_def)

lemma bra_matrix_ket:
  assumes w: "length w = N" and v: "length v = N"
  shows "bindE (matmul (conj_nd (vec w)) (mat_of N P)) (\<lambda>x.
         bindE (matmul x (vec v)) (\<lambda>e. Inr (item e))) = Inr (sandwich w P v)"
proof -
  have "(\<Sum>j<N. (\<Sum>k<N. cnj (w ! k) * P k j) * v ! j) = (\<Sum>k<N. cnj (w ! k) * (\<Sum>j<N. P k j * v ! j))"
  proof -
    have "(\<Sum>j<N. (\<Sum>k<N. cnj (w ! k) * P k j) * v ! j) = (\<Sum>j<N. \<Sum>k<N. cnj (w ! k) * P k j * v ! j)"
      by (simp add: sum_distrib_right)
    also have "\<dots> = (\<Sum>k<N. \<Sum>j<N. cnj (w ! k) * P k j * v ! j)" by (rule sum.swap)
    also have "\<dots> = (\<Sum>k<N. cnj (w ! k) * (\<Sum>j<N. P k j * v ! j))"
      by (simp add: sum_distrib_left mult.assoc)
    finally show ?thesis .
  qed
  then show ?thesis
    by (simp add: conj_vec_repr[OF w] vec_repr[OF v] matmul_vec_mat matmul_vec_vec item_def
        elem_def ravel_def sandwich_def w v)
qed

lemma shape_matmul_square:
  assumes "shape M = [N, N]" and "shape acc = [N, N]" and "matmul M acc = Inr R"
  shows "shape R = [N, N] \<and> wf_nd R"
  using assms by (auto simp add: matmul_def wf_nd_def)

lemma tm_loop_shape:
  assumes site: "\<And>j M. site j = Inr M \<Longrightarrow> shape M = [N, N]"
  shows "shape acc = [N, N] \<Longrightarrow> wf_nd acc \<Longrightarrow> tm_loop site js acc = Inr T \<Longrightarrow>
         shape T = [N, N] \<and> wf_nd T"
proof (induction js arbitrary: acc)
  case Nil
  then show ?case by simp
next
  case (Cons j js)
  from Cons.prems(3) obtain M R where M: "site j = Inr M" and R: "matmul M acc = Inr R"
    and T: "tm_loop site js R = Inr T"
    by (auto simp add: bindE_def split: sum.splits)
  have "shape R = [N, N] \<and> wf_nd R"
    using site[OF M] Cons.prems(1) R by (rule shape_matmul_square)
  then show ?case using Cons.IH T by blast
qed

lemma shape_reshape: "reshape a shp = Inr b \<Longrightarrow> shape b = shp"
  by (auto simp add: reshape_def split: if_splits)

lemma shape_t_mat_site_none:
  "t_mat_site_none s j = Inr M \<Longrightarrow> shape M = [(mps_chi s)\<^sup>2, (mps_chi s)\<^sup>2]"
  by (auto simp add: t_mat_site_none_def bindE_def dest: shape_reshape split: sum.splits)

lemma shape_t_mat_site_mpo:
  "t_mat_site_mpo s m j = Inr M \<Longrightarrow>
   shape M = [(mps_chi s)\<^sup>2 * mpo_chi m, (mps_chi s)\<^sup>2 * mpo_chi m]"
proof -
  assume a: "t_mat_site_mpo s m j = Inr M"
  have e: "mpo_chi m * mps_chi s * mps_chi s = (mps_chi s)\<^sup>2 * mpo_chi m"
    by (simp add: power2_eq_square mult_ac)
  from a obtain sw where "reshape sw [mpo_chi m * mps_chi s * mps_chi s, mpo_chi m * mps_chi s * mps_chi s] = Inr M"
    by (auto simp add: t_mat_site_mpo_def bindE_def Let_def split: sum.splits)
  then have "shape M = [mpo_chi m * mps_chi s * mps_chi s, mpo_chi m * mps_chi s * mps_chi s]"
    by (rule shape_reshape)
  then show ?thesis by (simp only: e)
qed

lemma eye_shape_wf: "shape (eye N) = [N, N]" "wf_nd (eye N)"
  by (simp_all add: eye_def wf_nd_def)

lemma transfer_matrix_shape:
  assumes "transfer_matrix s mpo = Inr T"
  shows "shape T = [tm_dim s mpo, tm_dim s mpo] \<and> wf_nd T"
proof (cases mpo)
  case None
  with assms have "tm_loop (t_mat_site_none s) [0..<mps_l_uc s] (eye ((mps_chi s)\<^sup>2)) = Inr T"
    by (simp add: transfer_matrix_def)
  then have "shape T = [(mps_chi s)\<^sup>2, (mps_chi s)\<^sup>2] \<and> wf_nd T"
    by (rule tm_loop_shape[rotated 3]) (simp_all add: shape_t_mat_site_none eye_shape_wf)
  then show ?thesis using None by (simp add: tm_dim_def)
next
  case (Some m)
  with assms have "tm_loop (t_mat_site_mpo s m) [0..<mps_l_uc s] (eye ((mps_chi s)\<^sup>2 * mpo_chi m)) = Inr T"
    by (simp add: transfer_matrix_def)
  then have "shape T = [(mps_chi s)\<^sup>2 * mpo_chi m, (mps_chi s)\<^sup>2 * mpo_chi m] \<and> wf_nd T"
    by (rule tm_loop_shape[rotated 3]) (simp_all add: shape_t_mat_site_mpo eye_shape_wf)
  then show ?thesis using Some by (simp add: tm_dim_def)
qed

lemma expect_fixed_general:
  assumes init: "MPS_init ts (Finite L) (Some l, Some r) = Inr s"
    and r: "r \<noteq> []" and L: "0 \<le> L"
    and op: "fixed_op_boundaries mpo"
    and tm: "transfer_matrix s mpo = Inr T"
  shows "expect s mpo =
     Inr (sandwich (contraction_vector (op_boundary mpo 1) r)
            (pw (length (contraction_vector (op_boundary mpo 0) l)) (\<lambda>i j. elem T [i, j]) (nat L))
            (contraction_vector (op_boundary mpo 0) l))"
proof -
  define N where "N = tm_dim s mpo"
  have sL: "mps_L s = Finite L" using init by (rule MPS_init_fields)
  from MPS_init_fields(7)[OF init] have l: "fst (mps_bdry_vecs s) = Some l" "length l = mps_chi s"
    by auto
  from MPS_init_fields(8,9)[OF init] r have rr: "snd (mps_bdry_vecs s) = Some r" "length r = mps_chi s"
    by (auto simp add: is_None_def)
  have T: "T = mat_of N (\<lambda>i j. elem T [i, j])"
    using transfer_matrix_shape[OF tm] by (intro mat_repr) (simp_all add: N_def)
  have pow: "matrix_power T L = Inr (mat_of N (pw N (\<lambda>i j. elem T [i, j]) (nat L)))"
    by (subst T) (rule matrix_power_mat_of[OF L])
  show ?thesis
  proof (cases mpo)
    case None
    have len: "length (kron (map cnj l) l) = N" "length (kron (map cnj r) r) = N"
      using None l rr by (simp_all add: length_kron N_def tm_dim_def power2_eq_square)
    show ?thesis
      using None l rr r len tm pow
      by (simp add: expect_def sL expect_none_def is_None_def bra_matrix_ket
          contraction_vector_def op_boundary_def)
  next
    case (Some m)
    with op obtain ml mr where ob: "op_boundary (Some m) 0 = Some ml" "op_boundary (Some m) 1 = Some mr"
      and ml: "length ml = mpo_chi m" and mr: "length mr = mpo_chi m"
      by (auto simp add: fixed_op_boundaries_def split: option.splits)
    from ob have b: "get_nth (mpo_bdry_vecs m) 0 = Inr (Arr ml)" "get_nth (mpo_bdry_vecs m) 1 = Inr (Arr mr)"
      by (auto simp add: op_boundary_def split: sum.splits bdry_item.splits)
    have len: "length (kron (map cnj l) (kron ml l)) = N" "length (kron (map cnj r) (kron mr r)) = N"
      using Some l rr ml mr by (simp_all add: length_kron N_def tm_dim_def power2_eq_square)
    show ?thesis
      using Some l rr r len b ob tm pow
      by (simp add: expect_def sL expect_mpo_def is_None_def bra_matrix_ket
          contraction_vector_def kron_item_def)
  qed
qed

subsection \<open>Both kinds of right boundary, and the inverse\<close>

lemma mv_cong: "(\<And>k. k < N \<Longrightarrow> v k = w k) \<Longrightarrow> mv N P v = mv N P w"
  by (simp add: mv_def)

lemma kron_conj_nth:
  assumes "length l = n" and "k < n * n"
  shows "kron (map cnj l) l ! k = cnj (l ! (k div n)) * l ! (k mod n)"
proof -
  have "k div n < length l" using assms by (simp add: less_mult_imp_div_less)
  then show ?thesis using assms by (simp add: kron_nth)
qed

lemma expect_none_any:
  assumes chi: "mps_chi s = n" and l: "fst (mps_bdry_vecs s) = Some l" "length l = n"
    and r: "case snd (mps_bdry_vecs s) of None \<Rightarrow> True | Some r \<Rightarrow> r \<noteq> [] \<and> length r = n"
  shows "expect_none s (mat_of (n * n) P) = Inr (boundary_contraction n (snd (mps_bdry_vecs s)) P l)"
proof (cases "snd (mps_bdry_vecs s)")
  case None
  have "mv (n * n) P (\<lambda>k. cnj (l ! (k div n)) * l ! (k mod n))
      = mv (n * n) P (\<lambda>k. kron (map cnj l) l ! k)"
    by (rule mv_cong) (simp add: kron_conj_nth[OF l(2)])
  then show ?thesis
    using None by (simp add: expect_none_trace[OF chi l None] boundary_contraction_def
        contraction_vector_def)
next
  case (Some r)
  with r have rr: "r \<noteq> []" "length r = n" by simp_all
  have len: "length (kron (map cnj l) l) = n * n" "length (kron (map cnj r) r) = n * n"
    using l rr by (simp_all add: length_kron)
  show ?thesis
    using Some l rr len
    by (simp add: expect_none_def is_None_def bra_matrix_ket boundary_contraction_def
        contraction_vector_def)
qed

lemma linalg_inv_shape:
  assumes "shape M = [N, N]" and "linalg_inv M = Inr Mi"
  shows "shape Mi = [N, N] \<and> wf_nd Mi"
  using assms by (auto simp add: linalg_inv_def Let_def wf_nd_def split: if_splits)

lemma boundary_contraction_idm_trace:
  assumes "length l = n"
  shows "boundary_contraction n None idm l = complex_of_real (\<Sum>z\<leftarrow>l. (cmod z)\<^sup>2)"
proof -
  have sq: "\<And>z. cnj z * z = complex_of_real ((cmod z)\<^sup>2)"
    by (metis complex_norm_square mult.commute)
  have "boundary_contraction n None idm l = (\<Sum>a<n. kron (map cnj l) l ! (a * n + a))"
    unfolding boundary_contraction_def
    by (simp add: contraction_vector_def mv_idm flat_lt)
  also have "\<dots> = (\<Sum>a<n. cnj (l ! a) * l ! a)"
    by (intro sum.cong refl) (simp add: kron_conj_nth[OF assms] flat_lt)
  also have "\<dots> = (\<Sum>a<n. complex_of_real ((cmod (l ! a))\<^sup>2))"
    by (simp only: sq)
  also have "\<dots> = complex_of_real (\<Sum>z\<leftarrow>l. (cmod z)\<^sup>2)"
    using assms by (simp add: sum_list_sum_nth atLeast0LessThan of_real_sum_list_map del: of_real_power)
  finally show ?thesis .
qed

section \<open>The example entities, constructed\<close>

lemma swap_state_init: "MPS_init [swap_tensor] L (Some [1, 0], None) = Inr (swap_state L)"
  by (simp add: MPS_init_def swap_tensor_def swap_state_def index_size_def is_None_def)

lemma id_mpo_init:
  "MPO_init [id_op_tensor] (Finite 1) (Some [1, 0], Some [1, 0]) = Inr id_mpo"
  by (simp add: MPO_init_def id_op_tensor_def id_mpo_def index_size_def is_None_def
      mpo_bdry_step_def)

text \<open>
  With a boundary vector unspecified, \<^verbatim>\<open>MPO.__init__\<close> raises: on the left ValueError
  (or IndexError when \<open>chi \<le> 1\<close>), on the right IndexError.
\<close>

lemma MPO_init_unspecified:
  "is_None (fst bv) \<or> is_None (snd bv) \<Longrightarrow> MPO_init ts L bv \<noteq> Inr m"
  by (auto simp add: MPO_init_def mpo_bdry_step_def bindE_def
      split: list.splits sum.splits option.splits if_splits)

lemma MPO_init_default_identity:
  "MPO_init [id_op_tensor] (Finite 1) (None, None) = Inl ValueError"
  by (simp add: MPO_init_def id_op_tensor_def index_size_def is_None_def mpo_bdry_step_def)

lemma MPO_init_default_bond_one:
  "MPO_init [\<lparr>shape = [1, 1, 1, 1], data = [1]\<rparr>] L (None, None) = Inl IndexError"
  by (simp add: MPO_init_def index_size_def is_None_def mpo_bdry_step_def)

lemma MPS_init_left_unspecified: "MPS_init ts L (None, r) \<noteq> Inr s"
  by (simp add: MPS_init_def bindE_def split: list.splits sum.splits)

lemma valid_site_swap: "list_all (valid_site 2) [swap_tensor]"
  by (simp add: valid_site_def swap_tensor_def wf_nd_def)

lemma right_canonical_swap: "right_canonical swap_tensor"
  by (simp add: right_canonical_def swap_tensor_def sumN_def elem_def ravel_def
      numeral_2_eq_2)

lemma complex_state_init:
  "MPS_init [complex_tensor] (Finite L) (Some [2 * \<i>], None) = Inr (complex_state L)"
  by (simp add: MPS_init_def complex_tensor_def complex_state_def index_size_def is_None_def)

lemma valid_site_complex: "list_all (valid_site 1) [complex_tensor]"
  by (simp add: valid_site_def complex_tensor_def wf_nd_def)

lemma not_right_canonical_complex: "\<not> right_canonical complex_tensor"
  by (simp add: right_canonical_def complex_tensor_def sumN_def elem_def ravel_def
      numeral_2_eq_2 complex_eq_iff)

lemma swap_mpo_init: "MPO_init [swap_op_tensor] (Finite 1) (Some [1, 0], Some [1, 0]) = Inr swap_mpo"
  by (simp add: MPO_init_def swap_op_tensor_def swap_mpo_def index_size_def is_None_def
      mpo_bdry_step_def)

lemma MPO_init_right_unspecified:
  "MPO_init [swap_op_tensor] (Finite 1) (Some [1, 0], None) = Inl IndexError"
  by (simp add: MPO_init_def swap_op_tensor_def index_size_def is_None_def mpo_bdry_step_def)

lemma complex_state_fixed_init:
  "MPS_init [complex_tensor] (Finite L) (Some [2 * \<i>], Some [1]) = Inr (complex_state_fixed L)"
  by (simp add: MPS_init_def complex_tensor_def complex_state_fixed_def index_size_def is_None_def)


lemma tm_swap: "transfer_matrix (complex_state_fixed L) (Some swap_mpo) =
    Inr \<lparr>shape = [2, 2], data = [2, 2 + 2 * \<i>, 2 - 2 * \<i>, 4]\<rparr>"
  by code_simp

lemma fixed_op_swap: "fixed_op_boundaries (Some swap_mpo)"
  by (simp add: fixed_op_boundaries_def op_boundary_def swap_mpo_def get_nth_def)

section \<open>Construction of a state entity\<close>

text \<open>
  Claim C5, as stated: constructing a state entity validates that all site tensors have
  equal, square bond dimension and equal physical dimension, and fails otherwise; in
  particular two site tensors with \<open>chi = 2\<close> and \<open>chi = 4\<close> are rejected.
  The constructor does not compare the tensors: with a left boundary vector of length 2,
  the construction from a tensor with \<open>chi = 2\<close> and one with \<open>chi = 4\<close> succeeds.
\<close>

theorem MPS_init_accepts_mixed_bond_dimensions:
  "MPS_init [swap_tensor, zero_tensor_chi4] (Finite 1) (Some [1, 0], None) =
     Inr \<lparr>mps_l_uc = 2, mps_L = Finite 1, mps_tensors = [swap_tensor, zero_tensor_chi4],
          mps_d = 2, mps_chi = 2, mps_bdry_vecs = (Some [1, 0], None)\<rparr>"
  by (simp add: MPS_init_def swap_tensor_def index_size_def is_None_def)

text \<open>
  Claim C5, amended: the constructor reads the physical dimension and the bond dimension
  \<open>chi\<close> off the first tensor alone (axes 0 and 1) and validates only the boundary vectors:
  a given left or right boundary vector whose length is not \<open>chi\<close> is a ValueError;
  otherwise the entity is built, whatever the remaining tensors are.
\<close>

theorem MPS_init_validates_boundary_only:
  assumes "shape t0 = [d, chi, m]" and "0 < d" and "0 < chi" and "0 < m" and "l \<noteq> []"
  shows "MPS_init (t0 # ts) L (Some l, r) =
     (if length l \<noteq> chi then Inl ValueError
      else case r of
        None \<Rightarrow> Inr \<lparr>mps_l_uc = Suc (length ts), mps_L = L, mps_tensors = t0 # ts,
                      mps_d = d, mps_chi = chi, mps_bdry_vecs = (Some l, None)\<rparr>
      | Some v \<Rightarrow>
          if v = [] then Inr \<lparr>mps_l_uc = Suc (length ts), mps_L = L, mps_tensors = t0 # ts,
                      mps_d = d, mps_chi = chi, mps_bdry_vecs = (Some l, None)\<rparr>
          else if length v \<noteq> chi then Inl ValueError
          else Inr \<lparr>mps_l_uc = Suc (length ts), mps_L = L, mps_tensors = t0 # ts,
                      mps_d = d, mps_chi = chi, mps_bdry_vecs = (Some l, Some v)\<rparr>)"
  using assms by (simp add: MPS_init_def index_size_def is_None_def split: option.splits)

theorem MPS_init_validates_boundary_only_witness:
  "shape swap_tensor = [2, 2, 2] \<and> (0::nat) < 2 \<and> [1, 0::complex] \<noteq> [] \<and>
   MPS_init (swap_tensor # [zero_tensor_chi4]) (Finite 1) (Some [1, 0], Some [0, 1, 0]) =
     Inl ValueError"
proof -
  have sh: "shape swap_tensor = [2, 2, 2]" by (simp add: swap_tensor_def)
  have pos: "(0::nat) < 2" by simp
  have ne: "[1, 0::complex] \<noteq> []" by simp
  show ?thesis
    using MPS_init_validates_boundary_only[OF sh pos pos pos ne, of "[zero_tensor_chi4]"
        "Finite 1" "Some [0, 1, 0]"] sh
    by simp
qed

text \<open>
  Claim C6: with the left boundary vector unspecified, construction succeeds and the
  left boundary is the first standard basis vector. The constructor stores a zero vector
  and then writes the entry 1 through \<^verbatim>\<open>self.bdry_vec\<close>, a misspelling of
  \<^verbatim>\<open>self.bdry_vecs\<close>: the construction raises AttributeError instead.
\<close>

theorem MPS_init_default_left_boundary_fails:
  "MPS_init [swap_tensor] (Finite 1) (None, None) = Inl AttributeError"
  by (simp add: MPS_init_def swap_tensor_def index_size_def)

section \<open>The unimplemented paths\<close>

text \<open>
  Claim C4, as stated: on an infinite chain the expectation with an operator is the ratio
  of two contractions with the fixed point of the transfer matrix. The code raises
  NotImplementedError there.
\<close>

theorem expect_infinite_chain_raises:
  "expect (swap_state Infinite) (Some id_mpo) = Inl NotImplementedError"
  by (simp add: expect_def swap_state_def)

text \<open>
  Claim C4, amended: for every state entity whose chain length is the infinite sentinel,
  the expectation operation, with or without an operator, raises NotImplementedError.
\<close>

theorem expect_infinite_not_implemented:
  "mps_L s = Infinite \<Longrightarrow> expect s mpo = Inl NotImplementedError"
  by (simp add: expect_def)

theorem expect_infinite_not_implemented_witness:
  "mps_L (swap_state Infinite) = Infinite \<and>
   expect (swap_state Infinite) None = Inl NotImplementedError"
proof -
  have h: "mps_L (swap_state Infinite) = Infinite" by (simp add: swap_state_def)
  show ?thesis using expect_infinite_not_implemented[OF h, of None] h by simp
qed

text \<open>
  Claim C8, as stated: the canonical-form check returns true exactly when every site
  tensor is right-canonical. The site tensor of the example state is right-canonical,
  and the check does not return true.
\<close>

theorem check_rcf_no_answer:
  "right_canonical swap_tensor \<and> check_rcf (swap_state (Finite 1)) \<noteq> Inr True"
  using right_canonical_swap by (simp add: check_rcf_def)

text \<open>
  Claim C8, amended: the canonical-form check is not implemented; for every state entity
  it raises NotImplementedError and returns no boolean.
\<close>

theorem check_rcf_not_implemented: "check_rcf s = Inl NotImplementedError"
  by (simp add: check_rcf_def)

section \<open>The unit-cell transfer matrix\<close>

text \<open>
  Claim C2: for a state entity with a non-empty unit cell, the transfer matrix without
  an operator is the product \<open>T\<^sub>l\<^sub>-\<^sub>1 \<cdots> T\<^sub>1 T\<^sub>0\<close> of the per-site matrices, each the
  contraction of the conjugate tensor with the tensor over the physical index, with
  (bra-bond-out, ket-bond-out) as row index and (bra-bond-in, ket-bond-in) as column
  index, flattened to \<open>chi\<^sup>2 \<times> chi\<^sup>2\<close>. (A constructed entity has a non-empty unit cell.)
\<close>

theorem transfer_matrix_unit_cell:
  assumes "MPS_init ts L bv = Inr s" and "list_all (valid_site n) ts"
  shows "transfer_matrix s None = Inr (mat_of (n * n) (unit_cell_product n ts))"
  using assms by (rule transfer_matrix_none)

theorem transfer_matrix_unit_cell_witness:
  "MPS_init [swap_tensor] (Finite 1) (Some [1, 0], None) = Inr (swap_state (Finite 1)) \<and>
   list_all (valid_site 2) [swap_tensor] \<and>
   transfer_matrix (swap_state (Finite 1)) None =
     Inr \<lparr>shape = [4, 4], data = [1, 0, 0, 1, 0, 0, 0, 0, 0, 0, 0, 0, 0, 0, 0, 0]\<rparr>"
proof -
  have "mat_of (2 * 2) (unit_cell_product 2 [swap_tensor]) =
      \<lparr>shape = [4, 4], data = [1, 0, 0, 1, 0, 0, 0, 0, 0, 0, 0, 0, 0, 0, 0, 0]\<rparr>"
    by (simp add: mat_of_def site_matrix_def contract_physical_def sumN_def elem_def ravel_def
        swap_tensor_def upt_rec[of _ "numeral _"])
  then show ?thesis
    using transfer_matrix_unit_cell[OF swap_state_init valid_site_swap, of "Finite 1"]
      swap_state_init valid_site_swap
    by simp
qed

section \<open>Normalisation of right-canonical states\<close>

text \<open>
  Claim C1: for a state entity whose site tensors are all right-canonical and whose left
  boundary vector has unit norm, the expectation with no operator and the right boundary
  traced out is 1 for every finite chain length \<open>L \<ge> 1\<close>.
\<close>

theorem expect_right_canonical:
  assumes "MPS_init ts (Finite L) (Some l, None) = Inr s"
    and "list_all (valid_site n) ts"
    and "list_all right_canonical ts"
    and "sum_list (map (\<lambda>x. (cmod x)\<^sup>2) l) = 1"
    and "1 \<le> L"
  shows "expect s None = Inr 1"
  using assms by (rule expect_normalised)

theorem expect_right_canonical_witness:
  "MPS_init [swap_tensor] (Finite 3) (Some [1, 0], None) = Inr (swap_state (Finite 3)) \<and>
   list_all (valid_site 2) [swap_tensor] \<and>
   list_all right_canonical [swap_tensor] \<and>
   sum_list (map (\<lambda>x. (cmod x)\<^sup>2) [1, 0]) = 1 \<and>
   (1::int) \<le> 3 \<and>
   expect (swap_state (Finite 3)) None = Inr 1"
proof -
  have rc: "list_all right_canonical [swap_tensor]" using right_canonical_swap by simp
  have norm: "sum_list (map (\<lambda>x. (cmod x)\<^sup>2) [1, 0]) = 1" by simp
  have L: "(1::int) \<le> 3" by simp
  show ?thesis
    using expect_right_canonical[OF swap_state_init valid_site_swap rc norm L]
      swap_state_init valid_site_swap rc norm
    by simp
qed

section \<open>The norm of a state that is not canonical\<close>

text \<open>
  Claim C10: with a fixed left boundary vector, a finite chain length \<open>L \<ge> 1\<close>, no
  operator and the right boundary traced out, the expectation is a real, nonnegative
  number, a sum of squared moduli, whatever complex entries the site tensors and the
  left boundary vector have.
\<close>

theorem expect_sum_of_squares:
  assumes init: "MPS_init ts (Finite L) (Some l, None) = Inr s"
    and valid: "list_all (valid_site n) ts"
    and L: "1 \<le> L"
  shows "\<exists>amps. expect s None = Inr (complex_of_real (\<Sum>z\<leftarrow>amps. (cmod z)\<^sup>2))
            \<and> 0 \<le> (\<Sum>z\<leftarrow>amps. (cmod z)\<^sup>2)"
proof -
  have ex: "expect s None =
     Inr (\<Sum>a<n. mv (n * n) (pw (n * n) (unit_cell_product n ts) (nat L))
                     (\<lambda>k. cnj (l ! (k div n)) * l ! (k mod n)) (a * n + a))"
    using init valid L by (intro expect_none_finite) simp_all
  have "gram n (mv (n * n) (pw (n * n) (unit_cell_product n ts) (nat L))
                     (\<lambda>k. cnj (l ! (k div n)) * l ! (k mod n)))"
    by (intro gram_pw gram_unit_cell gram_boundary)
  then obtain amps where
    "(\<Sum>a<n. mv (n * n) (pw (n * n) (unit_cell_product n ts) (nat L))
                     (\<lambda>k. cnj (l ! (k div n)) * l ! (k mod n)) (a * n + a))
      = complex_of_real (\<Sum>z\<leftarrow>amps. (cmod z)\<^sup>2)"
    using gram_trace by blast
  moreover have "0 \<le> (\<Sum>z\<leftarrow>amps. (cmod z)\<^sup>2)"
    by (rule sum_list_nonneg) auto
  ultimately show ?thesis using ex by auto
qed

theorem expect_sum_of_squares_witness:
  "MPS_init [complex_tensor] (Finite 2) (Some [2 * \<i>], None) = Inr (complex_state 2) \<and>
   list_all (valid_site 1) [complex_tensor] \<and>
   \<not> right_canonical complex_tensor \<and>
   (1::int) \<le> 2 \<and>
   (\<exists>amps. expect (complex_state 2) None = Inr (complex_of_real (\<Sum>z\<leftarrow>amps. (cmod z)\<^sup>2))
            \<and> 0 \<le> (\<Sum>z\<leftarrow>amps. (cmod z)\<^sup>2))"
proof -
  have L: "(1::int) \<le> 2" by simp
  show ?thesis
    using expect_sum_of_squares[OF complex_state_init valid_site_complex L]
      complex_state_init valid_site_complex not_right_canonical_complex
    by simp
qed

section \<open>Fixed boundary vectors\<close>

text \<open>
  Claim C3: with finite chain length \<open>L \<ge> 1\<close> and fixed left and right boundary vectors,
  the expectation is \<open>rightVec\<^sup>\<dagger> T\<^sup>L leftVec\<close>, where \<open>T\<close> is the unit-cell transfer matrix
  and each contraction vector is the Kronecker product of the conjugated boundary vector
  with the boundary vector; with an operator inserted, the operator's boundary vector
  stands between the two factors.
\<close>

theorem expect_fixed_boundaries:
  assumes "MPS_init ts (Finite L) (Some l, Some r) = Inr s"
    and "r \<noteq> []" and "1 \<le> L"
    and "fixed_op_boundaries mpo"
    and "transfer_matrix s mpo = Inr T"
  shows "expect s mpo =
     Inr (sandwich (contraction_vector (op_boundary mpo 1) r)
            (pw (length (contraction_vector (op_boundary mpo 0) l)) (\<lambda>i j. elem T [i, j]) (nat L))
            (contraction_vector (op_boundary mpo 0) l))"
  using assms by (intro expect_fixed_general) simp_all

theorem expect_fixed_boundaries_witness:
  "MPS_init [complex_tensor] (Finite 2) (Some [2 * \<i>], Some [1]) = Inr (complex_state_fixed 2) \<and>
   [1::complex] \<noteq> [] \<and> (1::int) \<le> 2 \<and>
   fixed_op_boundaries (Some swap_mpo) \<and>
   transfer_matrix (complex_state_fixed 2) (Some swap_mpo) =
     Inr \<lparr>shape = [2, 2], data = [2, 2 + 2 * \<i>, 2 - 2 * \<i>, 4]\<rparr> \<and>
   expect (complex_state_fixed 2) (Some swap_mpo) = Inr 48"
proof -
  have r: "[1::complex] \<noteq> []" by simp
  have L: "(1::int) \<le> 2" by simp
  have "expect (complex_state_fixed 2) (Some swap_mpo) =
     Inr (sandwich (contraction_vector (op_boundary (Some swap_mpo) 1) [1])
            (pw (length (contraction_vector (op_boundary (Some swap_mpo) 0) [2 * \<i>]))
                (\<lambda>i j. elem \<lparr>shape = [2, 2], data = [2, 2 + 2 * \<i>, 2 - 2 * \<i>, 4]\<rparr> [i, j])
                (nat 2))
            (contraction_vector (op_boundary (Some swap_mpo) 0) [2 * \<i>]))"
    by (rule expect_fixed_boundaries[OF complex_state_fixed_init r L fixed_op_swap tm_swap])
  also have "\<dots> = Inr 48"
    by (simp add: sandwich_def contraction_vector_def op_boundary_def swap_mpo_def get_nth_def
        kron_def mm_def idm_def elem_def ravel_def numeral_2_eq_2 lessThan_Suc complex_eq_iff)
  finally show ?thesis
    using complex_state_fixed_init fixed_op_swap tm_swap by simp
qed

section \<open>Chain lengths that are not positive\<close>

text \<open>
  Claim C9, as stated: with a finite chain length \<open>L \<le> 0\<close> the expectation operation
  fails and returns no scalar. For \<open>L = 0\<close> the code returns one.
\<close>

theorem expect_zero_length_returns: "expect (swap_state (Finite 0)) None = Inr 1"
proof -
  have "expect (swap_state (Finite 0)) None =
     Inr (\<Sum>a<2. mv (2 * 2) (pw (2 * 2) (unit_cell_product 2 [swap_tensor]) (nat 0))
                     (\<lambda>k. cnj ([1, 0] ! (k div 2)) * [1, 0] ! (k mod 2)) (a * 2 + a))"
    by (rule expect_none_finite[OF swap_state_init valid_site_swap]) simp
  also have "\<dots> = Inr 1"
    by (simp add: mv_def idm_def lessThan_nat_numeral lessThan_Suc)
  finally show ?thesis .
qed

text \<open>
  Claim C9, amended: the expectation operation makes no check of the chain length. With
  no operator, for \<open>L = 0\<close> the matrix power is the identity and the result is the
  contraction of the boundaries with the identity (with the right boundary traced out:
  the squared norm of the left boundary vector); for \<open>L < 0\<close> the matrix power inverts
  the unit-cell transfer matrix, so that the operation fails with LinAlgError when that
  matrix is singular and otherwise returns the contraction of the boundaries with the
  \<open>|L|\<close>-th power of the inverse.
\<close>

theorem expect_nonpositive_length:
  assumes init: "MPS_init ts (Finite L) (Some l, rb) = Inr s"
    and valid: "list_all (valid_site n) ts"
    and L: "L \<le> 0"
  shows "expect s None =
     (if L = 0 then Inr (boundary_contraction n (snd (mps_bdry_vecs s)) idm l)
      else bindE (linalg_inv (mat_of (n * n) (unit_cell_product n ts))) (\<lambda>Ti.
             Inr (boundary_contraction n (snd (mps_bdry_vecs s))
                    (pw (n * n) (\<lambda>i j. elem Ti [i, j]) (nat (- L))) l)))
     \<and> (L = 0 \<and> snd (mps_bdry_vecs s) = None \<longrightarrow>
          expect s None = Inr (complex_of_real (\<Sum>z\<leftarrow>l. (cmod z)\<^sup>2)))"
proof -
  have chi: "mps_chi s = n" using init valid by (rule valid_site_chi)
  have sL: "mps_L s = Finite L" using init by (rule MPS_init_fields)
  from MPS_init_fields(7)[OF init] have l: "fst (mps_bdry_vecs s) = Some l" "length l = n"
    using chi by auto
  from MPS_init_fields(8,9)[OF init]
  have r: "case snd (mps_bdry_vecs s) of None \<Rightarrow> True | Some r \<Rightarrow> r \<noteq> [] \<and> length r = n"
    using chi by (auto simp add: is_None_def split: option.splits)
  note en = expect_none_any[OF chi l r]
  have tm: "transfer_matrix s None = Inr (mat_of (n * n) (unit_cell_product n ts))"
    using init valid by (rule transfer_matrix_none)
  have main: "expect s None =
     (if L = 0 then Inr (boundary_contraction n (snd (mps_bdry_vecs s)) idm l)
      else bindE (linalg_inv (mat_of (n * n) (unit_cell_product n ts))) (\<lambda>Ti.
             Inr (boundary_contraction n (snd (mps_bdry_vecs s))
                    (pw (n * n) (\<lambda>i j. elem Ti [i, j]) (nat (- L))) l)))"
  proof (cases "L = 0")
    case True
    then show ?thesis
      by (simp add: expect_def sL tm matrix_power_def shape_mat_of eye_idm en)
  next
    case False
    show ?thesis
    proof (cases "linalg_inv (mat_of (n * n) (unit_cell_product n ts))")
      case (Inl e)
      then show ?thesis using False L
        by (simp add: expect_def sL tm matrix_power_def shape_mat_of)
    next
      case (Inr Ti)
      have "shape Ti = [n * n, n * n] \<and> wf_nd Ti"
        using shape_mat_of Inr by (rule linalg_inv_shape)
      then have Ti: "Ti = mat_of (n * n) (\<lambda>i j. elem Ti [i, j])" by (intro mat_repr) simp_all
      have "mat_pow Ti (n * n) (nat (- L)) =
          Inr (mat_of (n * n) (pw (n * n) (\<lambda>i j. elem Ti [i, j]) (nat (- L))))"
        by (subst Ti) (rule mat_pow_mat_of)
      then show ?thesis using False L Inr
        by (simp add: expect_def sL tm matrix_power_def shape_mat_of en)
    qed
  qed
  moreover have "L = 0 \<and> snd (mps_bdry_vecs s) = None \<longrightarrow>
          expect s None = Inr (complex_of_real (\<Sum>z\<leftarrow>l. (cmod z)\<^sup>2))"
    using main by (simp add: boundary_contraction_idm_trace[OF l(2)])
  ultimately show ?thesis by blast
qed

theorem expect_nonpositive_length_witness:
  "MPS_init [complex_tensor] (Finite (- 1)) (Some [2 * \<i>], None) = Inr (complex_state (- 1)) \<and>
   MPS_init [complex_tensor] (Finite 0) (Some [2 * \<i>], None) = Inr (complex_state 0) \<and>
   list_all (valid_site 1) [complex_tensor] \<and> (- 1::int) \<le> 0 \<and>
   snd (mps_bdry_vecs (complex_state 0)) = None \<and>
   expect (complex_state (- 1)) None = Inr (2 / 3) \<and>
   expect (complex_state 0) None = Inr 4"
proof -
  have L: "(- 1::int) \<le> 0" by simp
  have L0: "(0::int) \<le> 0" by simp
  have tr: "snd (mps_bdry_vecs (complex_state 0)) = None" by (simp add: complex_state_def)
  have "unit_cell_product 1 [complex_tensor] 0 0 = 6"
    by (simp add: site_matrix_def contract_physical_def sumN_def elem_def
        ravel_def complex_tensor_def numeral_2_eq_2 complex_eq_iff)
  then have inv: "linalg_inv (mat_of (1 * 1) (unit_cell_product 1 [complex_tensor])) =
      Inr \<lparr>shape = [1, 1], data = [1 / 6]\<rparr>"
    by (simp add: linalg_inv_def mat_of_def rows_of_def elem_def ravel_def drop_nth_def Let_def)
  from expect_nonpositive_length[OF complex_state_init valid_site_complex L]
  have "expect (complex_state (- 1)) None =
      bindE (linalg_inv (mat_of (1 * 1) (unit_cell_product 1 [complex_tensor]))) (\<lambda>Ti.
             Inr (boundary_contraction 1 (snd (mps_bdry_vecs (complex_state (- 1))))
                    (pw (1 * 1) (\<lambda>i j. elem Ti [i, j]) (nat (- (- 1)))) [2 * \<i>]))"
    by simp
  also have "\<dots> = Inr (2 / 3)"
    unfolding inv
    by (simp add: boundary_contraction_def complex_state_def contraction_vector_def kron_def
        mv_def mm_def idm_def elem_def ravel_def)
  finally have a: "expect (complex_state (- 1)) None = Inr (2 / 3)" .
  have "0 = (0::int) \<and> snd (mps_bdry_vecs (complex_state 0)) = None \<longrightarrow>
      expect (complex_state 0) None = Inr (complex_of_real (\<Sum>z\<leftarrow>[2 * \<i>]. (cmod z)\<^sup>2))"
    by (rule conjunct2[OF expect_nonpositive_length[OF complex_state_init valid_site_complex L0]])
  then have b: "expect (complex_state 0) None = Inr 4"
    using tr by (simp add: norm_mult)
  show ?thesis
    using a b tr complex_state_init valid_site_complex by simp
qed

section \<open>Inserting the identity operator\<close>

text \<open>
  Claim C7: inserting an operator whose site tensors are the identity on the physical
  leg, with bond dimension 1, gives the same value as the expectation without operator.
  \<^verbatim>\<open>MPO.__init__\<close> reads the operator's bond dimension off axis 2, the physical-in axis,
  so that for the identity on a physical leg of dimension 2 it takes \<open>chi = 2\<close>:
  boundary vectors of length 1 are rejected with ValueError, and with boundary vectors
  of length 2, which the constructor accepts, the reshape of the operator on the ket in
  the transfer matrix raises ValueError, while the expectation without operator is 1.
\<close>

theorem identity_operator_insertion_fails:
  "MPO_init [id_op_tensor] (Finite 1) (Some [1], Some [1]) = Inl ValueError \<and>
   MPO_init [id_op_tensor] (Finite 1) (Some [1, 0], Some [1, 0]) = Inr id_mpo \<and>
   expect (swap_state (Finite 1)) (Some id_mpo) = Inl ValueError \<and>
   expect (swap_state (Finite 1)) None = Inr 1"
proof -
  have a: "MPO_init [id_op_tensor] (Finite 1) (Some [1], Some [1]) = Inl ValueError"
    by (simp add: MPO_init_def id_op_tensor_def index_size_def is_None_def mpo_bdry_step_def)
  have b: "expect (swap_state (Finite 1)) (Some id_mpo) = Inl ValueError"
    by (simp add: expect_def swap_state_def id_mpo_def transfer_matrix_def t_mat_site_mpo_def
        get_nth_def id_op_tensor_def swap_tensor_def tensordot_def drop_nth_def Let_def
        swapaxes_def swap_list_def reshape_def size_nd_def)
  have rc: "list_all right_canonical [swap_tensor]" using right_canonical_swap by simp
  have "sum_list (map (\<lambda>x. (cmod x)\<^sup>2) [1, 0]) = 1" by simp
  then have c: "expect (swap_state (Finite 1)) None = Inr 1"
    by (intro expect_normalised[OF swap_state_init valid_site_swap rc]) simp_all
  show ?thesis using a b c id_mpo_init by simp
qed

end
